theory Spec2Isabelle
  imports Main
begin

section \<open>Data model\<close>

text \<open>
  The row types of \<^verbatim>\<open>src/lib/supabase.ts\<close>, restricted to the fields that the cart and
  checkout code reads or writes. Identifiers are strings (uuid columns). A JavaScript
  \<^verbatim>\<open>number\<close> is the type parameter \<open>'n\<close>: the functions below only ask for the operations the
  code applies to it (\<open>0\<close>, \<open>1\<close>, \<open>+\<close>, \<open>-\<close>, \<open>*\<close>, \<open><\<close>), and the proofs use no law of
  arithmetic unless a statement asks for one, so the results do not depend on the numbers
  being exact.
\<close>

record 'n product =
  p_id :: string
  p_seller_id :: string
  p_price :: 'n
  p_stock_quantity :: 'n

record 'n cart_item =
  c_id :: string
  c_buyer_id :: string
  c_product_id :: string
  c_quantity :: 'n

text \<open>\<^verbatim>\<open>CartItem & { product: Product }\<close>: a cart row joined with its product snapshot.\<close>

record 'n cart_line = "'n cart_item" +
  c_product :: "'n product"

record address =
  fullName :: string
  phone :: string
  address :: string
  city :: string
  state :: string
  pincode :: string

text \<open>The form state of \<^verbatim>\<open>CheckoutModal\<close>: the six address fields and the payment method.\<close>

record formData = address +
  paymentMethod :: string

text \<open>The object passed to \<^verbatim>\<open>.from('orders').insert(...)\<close>, and the stored row with its id.\<close>

record 'n order_values =
  o_order_number :: string
  o_buyer_id :: string
  o_seller_id :: string
  o_total_amount :: 'n
  o_status :: string
  o_payment_status :: string
  o_payment_method :: string
  o_shipping_address :: address
  o_billing_address :: address

record 'n order_row = "'n order_values" +
  o_id :: string

record 'n order_item =
  oi_order_id :: string
  oi_product_id :: string
  oi_quantity :: 'n
  oi_price_per_unit :: 'n
  oi_total_price :: 'n

section \<open>Grouping cart lines by seller\<close>

text \<open>
  \<^verbatim>\<open>CheckoutModal.tsx\<close>, lines 26-33:
  \<^verbatim>\<open>
  const groupedBySeller = items.reduce((acc, item) => {
    const sellerId = item.product.seller_id;
    if (!acc[sellerId]) { acc[sellerId] = []; }
    acc[sellerId].push(item);
    return acc;
  }, {} as Record<string, typeof items>);
  \<close>
  The accumulator object is an association list in insertion order of its keys, which is
  the order in which \<^verbatim>\<open>Object.entries\<close> enumerates keys that are uuid strings.
  \<open>acc_push acc k x\<close> is the body of the callback: create the entry for \<open>k\<close> when it is
  missing, then push \<open>x\<close> at the end of the entry's array.
\<close>

fun acc_push :: "('k \<times> 'a list) list \<Rightarrow> 'k \<Rightarrow> 'a \<Rightarrow> ('k \<times> 'a list) list" where
  "acc_push [] k x = [(k, [x])]"
| "acc_push ((k', xs) # acc) k x =
     (if k' = k then (k', xs @ [x]) # acc else (k', xs) # acc_push acc k x)"

definition sellerId_of :: "'n cart_line \<Rightarrow> string" where
  "sellerId_of item = p_seller_id (c_product item)"

definition groupedBySeller :: "'n cart_line list \<Rightarrow> (string \<times> 'n cart_line list) list" where
  "groupedBySeller items = foldl (\<lambda>acc item. acc_push acc (sellerId_of item) item) [] items"

section \<open>The managed store as the client sees it\<close>

text \<open>
  Every \<^verbatim>\<open>await supabase.from(...)...\<close> is one request to the store and resolves to a
  response \<^verbatim>\<open>{ data, error }\<close>. The store is a record of the four tables the code touches and
  of the requests issued so far, each with a flag telling whether its response carried an
  \<^verbatim>\<open>error\<close>.
\<close>

datatype 'n request =
    InsertOrder "'n order_values"
  | InsertOrderItems "'n order_item list"
  | UpdateStock string 'n
  | DeleteCart string
  | UpdateCartQuantity string 'n
  | SelectCart string
  | SelectCartItem string string
  | InsertCartItem string string 'n
  | SelectCartQuantities string

record 'n store =
  products :: "'n product list"
  orders :: "'n order_row list"
  order_items :: "'n order_item list"
  cart_items :: "'n cart_item list"
  calls :: "('n request \<times> bool) list"

text \<open>
  What the code cannot decide is an input: \<open>fails env k\<close> tells whether the response to the
  \<open>k\<close>-th request (counted over \<open>calls\<close>, from 0) carries an error, for whatever reason
  (network, constraint, policy check); \<open>generated_id env k\<close> is the id that the store's
  \<^verbatim>\<open>DEFAULT gen_random_uuid()\<close> gives to a row inserted by request \<open>k\<close>; \<open>order_number_at env k\<close>
  is the value of
  \<^verbatim>\<open>`ORD-${Date.now()}-${Math.random().toString(36).substr(2, 9).toUpperCase()}`\<close>
  evaluated just before request \<open>k\<close>. A request whose response carries an error changes no
  table; a row is stored with the values that were sent (the rounding of the
  \<^verbatim>\<open>decimal(10,2)\<close> columns is left out).
\<close>

record env =
  fails :: "nat \<Rightarrow> bool"
  generated_id :: "nat \<Rightarrow> string"
  order_number_at :: "nat \<Rightarrow> string"

definition call_no :: "'n store \<Rightarrow> nat" where
  "call_no st = length (calls st)"

definition record_call :: "'n request \<Rightarrow> bool \<Rightarrow> 'n store \<Rightarrow> 'n store" where
  "record_call r e st = st\<lparr>calls := calls st @ [(r, e)]\<rparr>"

definition stored_order :: "'n order_values \<Rightarrow> string \<Rightarrow> 'n order_row" where
  "stored_order v i =
     \<lparr>o_order_number = o_order_number v, o_buyer_id = o_buyer_id v, o_seller_id = o_seller_id v,
      o_total_amount = o_total_amount v, o_status = o_status v,
      o_payment_status = o_payment_status v, o_payment_method = o_payment_method v,
      o_shipping_address = o_shipping_address v, o_billing_address = o_billing_address v,
      o_id = i\<rparr>"

text \<open>
  \<^verbatim>\<open>.from('orders').insert(v).select().single()\<close>: the response's \<open>data\<close> is the inserted
  row, of which the code reads the id only; \<open>None\<close> stands for a response with an error.
\<close>

definition insert_order :: "env \<Rightarrow> 'n order_values \<Rightarrow> 'n store \<Rightarrow> string option \<times> 'n store" where
  "insert_order env v st =
     (let k = call_no st in
      if fails env k then (None, record_call (InsertOrder v) True st)
      else (Some (generated_id env k),
            record_call (InsertOrder v) False
              (st\<lparr>orders := orders st @ [stored_order v (generated_id env k)]\<rparr>)))"

text \<open>\<^verbatim>\<open>.from('order_items').insert(orderItems)\<close>; the flag returned is \<open>error \<noteq> null\<close>.\<close>

definition insert_order_items :: "env \<Rightarrow> 'n order_item list \<Rightarrow> 'n store \<Rightarrow> bool \<times> 'n store" where
  "insert_order_items env its st =
     (if fails env (call_no st) then (True, record_call (InsertOrderItems its) True st)
      else (False, record_call (InsertOrderItems its) False
                     (st\<lparr>order_items := order_items st @ its\<rparr>)))"

text \<open>
  \<^verbatim>\<open>.from('products').update({ stock_quantity: v }).eq('id', pid)\<close>, sent by the signed-in
  user \<open>uid\<close>. The schema of the repository (its SQL migration, lines 164 and 306-310)
  enables row level security on \<^verbatim>\<open>products\<close> and has one policy for updates,
  \<^verbatim>\<open>CREATE POLICY "Sellers can update own products" ON products FOR UPDATE
    TO authenticated USING (seller_id = auth.uid()) WITH CHECK (seller_id = auth.uid());\<close>
  so the rows that the update reaches are those with the given id whose seller is the caller;
  a row that the \<^verbatim>\<open>USING\<close> clause excludes is skipped and no error is reported.
\<close>

definition update_stock :: "env \<Rightarrow> string \<Rightarrow> string \<Rightarrow> 'n \<Rightarrow> 'n store \<Rightarrow> bool \<times> 'n store" where
  "update_stock env uid pid v st =
     (if fails env (call_no st) then (True, record_call (UpdateStock pid v) True st)
      else (False, record_call (UpdateStock pid v) False
                     (st\<lparr>products :=
                          map (\<lambda>p. if p_id p = pid \<and> p_seller_id p = uid
                                    then p\<lparr>p_stock_quantity := v\<rparr> else p) (products st)\<rparr>)))"

text \<open>
  \<^verbatim>\<open>.from('cart_items').delete().eq('buyer_id', buyer)\<close> sent by \<open>uid\<close>, under the policy
  \<^verbatim>\<open>"Buyers can delete from own cart"\<close>, which like the other policies on \<^verbatim>\<open>cart_items\<close>
  admits the caller's own rows (\<^verbatim>\<open>buyer_id = auth.uid()\<close>).
\<close>

definition delete_cart :: "env \<Rightarrow> string \<Rightarrow> string \<Rightarrow> 'n store \<Rightarrow> bool \<times> 'n store" where
  "delete_cart env uid buyer st =
     (if fails env (call_no st) then (True, record_call (DeleteCart buyer) True st)
      else (False, record_call (DeleteCart buyer) False
                     (st\<lparr>cart_items :=
                          filter (\<lambda>c. \<not> (c_buyer_id c = buyer \<and> c_buyer_id c = uid))
                            (cart_items st)\<rparr>)))"

section \<open>Checkout: \<^verbatim>\<open>handleSubmit\<close> of \<^verbatim>\<open>CheckoutModal.tsx\<close>\<close>

text \<open>Lines 43-46: the \<^verbatim>\<open>reduce\<close> that computes \<^verbatim>\<open>totalAmount\<close>.\<close>

definition totalAmount_of :: "('n::{zero,plus,times}) cart_line list \<Rightarrow> 'n" where
  "totalAmount_of sellerItems =
     foldl (\<lambda>sum item. sum + p_price (c_product item) * c_quantity item) 0 sellerItems"

text \<open>The address object literal of lines 60-67, written a second time at lines 68-75.\<close>

definition address_of :: "formData \<Rightarrow> address" where
  "address_of fd =
     \<lparr>fullName = fullName fd, phone = phone fd, address = address fd, city = city fd,
      state = state fd, pincode = pincode fd\<rparr>"

text \<open>Lines 52-76: the object given to the insert into \<^verbatim>\<open>orders\<close>.\<close>

definition order_values_of ::
  "string \<Rightarrow> string \<Rightarrow> formData \<Rightarrow> string \<Rightarrow> ('n::{zero,plus,times}) cart_line list \<Rightarrow> 'n order_values" where
  "order_values_of orderNumber uid fd sellerId sellerItems =
     \<lparr>o_order_number = orderNumber,
      o_buyer_id = uid,
      o_seller_id = sellerId,
      o_total_amount = totalAmount_of sellerItems,
      o_status = ''pending'',
      o_payment_status = (if paymentMethod fd = ''cod'' then ''pending'' else ''paid''),
      o_payment_method = paymentMethod fd,
      o_shipping_address = address_of fd,
      o_billing_address = address_of fd\<rparr>"

text \<open>Lines 82-88: the \<^verbatim>\<open>map\<close> that builds \<^verbatim>\<open>orderItems\<close>.\<close>

definition orderItems_of :: "string \<Rightarrow> ('n::times) cart_line list \<Rightarrow> 'n order_item list" where
  "orderItems_of order_id sellerItems =
     map (\<lambda>item. \<lparr>oi_order_id = order_id,
                   oi_product_id = c_product_id item,
                   oi_quantity = c_quantity item,
                   oi_price_per_unit = p_price (c_product item),
                   oi_total_price = p_price (c_product item) * c_quantity item\<rparr>) sellerItems"

text \<open>
  Lines 96-103: one update per line of the group; the response is awaited and dropped
  (\<open>snd\<close> keeps the store only).
\<close>

definition decrement_stock :: "env \<Rightarrow> string \<Rightarrow> 'n store \<Rightarrow> ('n::minus) cart_line \<Rightarrow> 'n store" where
  "decrement_stock env uid st item =
     snd (update_stock env uid (c_product_id item)
            (p_stock_quantity (c_product item) - c_quantity item) st)"

datatype error = OrderError | ItemsError

text \<open>
  The body of the \<^verbatim>\<open>for (const [sellerId, sellerItems] of ...)\<close> loop, lines 43-103.
  \<open>Some e\<close> in the result is \<^verbatim>\<open>throw orderError\<close> (line 80) or \<^verbatim>\<open>throw itemsError\<close> (line 94).
\<close>

definition process_group ::
  "env \<Rightarrow> string \<Rightarrow> formData \<Rightarrow> string \<times> ('n::{zero,plus,minus,times}) cart_line list \<Rightarrow> 'n store
     \<Rightarrow> error option \<times> 'n store" where
  "process_group env uid fd g st =
     (let sellerId = fst g; sellerItems = snd g;
          orderNumber = order_number_at env (call_no st) in
      case insert_order env (order_values_of orderNumber uid fd sellerId sellerItems) st of
        (None, st1) \<Rightarrow> (Some OrderError, st1)
      | (Some order_id, st1) \<Rightarrow>
          (case insert_order_items env (orderItems_of order_id sellerItems) st1 of
             (True, st2) \<Rightarrow> (Some ItemsError, st2)
           | (False, st2) \<Rightarrow> (None, foldl (decrement_stock env uid) st2 sellerItems)))"

text \<open>The loop over \<^verbatim>\<open>Object.entries(groupedBySeller)\<close>: a throw leaves it.\<close>

fun process_groups ::
  "env \<Rightarrow> string \<Rightarrow> formData \<Rightarrow> (string \<times> ('n::{zero,plus,minus,times}) cart_line list) list \<Rightarrow> 'n store
     \<Rightarrow> error option \<times> 'n store" where
  "process_groups env uid fd [] st = (None, st)"
| "process_groups env uid fd (g # gs) st =
     (case process_group env uid fd g st of
        (Some e, st') \<Rightarrow> (Some e, st')
      | (None, st') \<Rightarrow> process_groups env uid fd gs st')"

text \<open>
  What the caller sees of a run: \<open>NoUser\<close> is the early \<^verbatim>\<open>return\<close> of line 37, \<open>Succeeded\<close>
  is \<^verbatim>\<open>onSuccess(); onClose();\<close> (lines 108-109), \<open>Failed\<close> is the \<^verbatim>\<open>catch\<close> block with its
  alert \<^verbatim>\<open>'Failed to create order. Please try again.'\<close> (lines 110-112).
\<close>

datatype outcome = NoUser | Succeeded | Failed

text \<open>
  \<^verbatim>\<open>handleSubmit\<close>, lines 35-116. \<open>user\<close> is \<^verbatim>\<open>user?.id\<close>. The response of the cart delete
  (line 106) is awaited and dropped. The \<^verbatim>\<open>loading\<close> flag of the component (lines 39 and
  114) is left out.
\<close>

definition handleSubmit ::
  "env \<Rightarrow> string option \<Rightarrow> formData \<Rightarrow> ('n::{zero,plus,minus,times}) cart_line list \<Rightarrow> 'n store
     \<Rightarrow> outcome \<times> 'n store" where
  "handleSubmit env user fd items st =
     (case user of
        None \<Rightarrow> (NoUser, st)
      | Some uid \<Rightarrow>
          (case process_groups env uid fd (groupedBySeller items) st of
             (Some e, st') \<Rightarrow> (Failed, st')
           | (None, st') \<Rightarrow> (Succeeded, snd (delete_cart env uid uid st'))))"

section \<open>The cart: \<^verbatim>\<open>CartModal.tsx\<close>\<close>

text \<open>The component state: \<^verbatim>\<open>cartItems\<close> and \<^verbatim>\<open>loading\<close> (lines 14-15).\<close>

record 'n cart_modal =
  cartItems :: "'n cart_line list"
  loading :: bool

definition joined :: "'n cart_item \<Rightarrow> 'n product \<Rightarrow> 'n cart_line" where
  "joined c p =
     \<lparr>c_id = c_id c, c_buyer_id = c_buyer_id c, c_product_id = c_product_id c,
      c_quantity = c_quantity c, c_product = p\<rparr>"

text \<open>
  Lines 28-34: \<^verbatim>\<open>.from('cart_items').select(`*, product:products(*)`).eq('buyer_id', buyer)\<close>,
  sent by \<open>caller\<close> (\<^verbatim>\<open>auth.uid()\<close>, \<open>None\<close> when nobody is signed in) under the policy
  \<^verbatim>\<open>"Buyers can view own cart" ... USING (buyer_id = auth.uid())\<close>. Each cart row comes with
  the product row that its \<^verbatim>\<open>product_id\<close> references; the product rows are taken to be
  readable by the caller, as the cast of line 37 takes them to be.
\<close>

definition select_cart ::
  "env \<Rightarrow> string option \<Rightarrow> string \<Rightarrow> 'n store \<Rightarrow> 'n cart_line list option \<times> 'n store" where
  "select_cart env caller buyer st =
     (if fails env (call_no st) then (None, record_call (SelectCart buyer) True st)
      else (Some (concat (map (\<lambda>c. map (joined c)
                                       (filter (\<lambda>p. p_id p = c_product_id c) (products st)))
                              (filter (\<lambda>c. c_buyer_id c = buyer \<and> Some (c_buyer_id c) = caller)
                                 (cart_items st)))),
            record_call (SelectCart buyer) False st))"

text \<open>
  \<^verbatim>\<open>loadCart\<close>, lines 23-43. \<^verbatim>\<open>setLoading(true)\<close> is followed in every path by the
  \<^verbatim>\<open>setLoading(false)\<close> of the \<^verbatim>\<open>finally\<close> block; an error is logged to the console only.
\<close>

definition loadCart ::
  "env \<Rightarrow> string option \<Rightarrow> 'n cart_modal \<times> 'n store \<Rightarrow> 'n cart_modal \<times> 'n store" where
  "loadCart env user w =
     (case user of
        None \<Rightarrow> w
      | Some uid \<Rightarrow>
          (case select_cart env user uid (snd w) of
             (None, st') \<Rightarrow> ((fst w)\<lparr>loading := False\<rparr>, st')
           | (Some data, st') \<Rightarrow> ((fst w)\<lparr>cartItems := data, loading := False\<rparr>, st')))"

text \<open>
  \<^verbatim>\<open>.from('cart_items').update({ quantity: q }).eq('id', itemId)\<close> under the policy
  \<^verbatim>\<open>"Buyers can update own cart" ... USING (buyer_id = auth.uid())\<close>.
\<close>

definition update_cart_quantity ::
  "env \<Rightarrow> string option \<Rightarrow> string \<Rightarrow> 'n \<Rightarrow> 'n store \<Rightarrow> bool \<times> 'n store" where
  "update_cart_quantity env caller itemId q st =
     (if fails env (call_no st) then (True, record_call (UpdateCartQuantity itemId q) True st)
      else (False, record_call (UpdateCartQuantity itemId q) False
                     (st\<lparr>cart_items :=
                          map (\<lambda>c. if c_id c = itemId \<and> Some (c_buyer_id c) = caller
                                    then c\<lparr>c_quantity := q\<rparr> else c) (cart_items st)\<rparr>)))"

text \<open>
  \<^verbatim>\<open>updateQuantity\<close>, lines 45-59:
  \<^verbatim>\<open>
  if (newQuantity < 1) return;
  try {
    const { error } = await supabase.from('cart_items')
      .update({ quantity: newQuantity }).eq('id', itemId);
    if (error) throw error;
    await loadCart();
  } catch (error) { console.error('Error updating quantity:', error); }
  \<close>
\<close>

definition updateQuantity ::
  "env \<Rightarrow> string option \<Rightarrow> string \<Rightarrow> ('n::{one,ord}) \<Rightarrow> 'n cart_modal \<times> 'n store
     \<Rightarrow> 'n cart_modal \<times> 'n store" where
  "updateQuantity env user itemId newQuantity w =
     (if newQuantity < 1 then w
      else (case update_cart_quantity env user itemId newQuantity (snd w) of
              (True, st') \<Rightarrow> (fst w, st')
            | (False, st') \<Rightarrow> loadCart env user (fst w, st')))"

section \<open>Adding to the cart: \<^verbatim>\<open>handleAddToCart\<close> of \<^verbatim>\<open>App\<close>\<close>

text \<open>The part of the state of \<^verbatim>\<open>App\<close> that adding to the cart can change.\<close>

record 'n app =
  showAuthModal :: bool
  cartCount :: 'n

text \<open>
  Lines 371-376:
  \<^verbatim>\<open>.select('*').eq('buyer_id', buyer).eq('product_id', pid).maybeSingle()\<close>. Only \<open>data\<close>
  is read from the response: the row when exactly one row matches, \<^verbatim>\<open>null\<close> when none
  does, and \<^verbatim>\<open>null\<close> with an error when the request fails or several rows match.
\<close>

definition select_cart_item ::
  "env \<Rightarrow> string option \<Rightarrow> string \<Rightarrow> string \<Rightarrow> 'n store \<Rightarrow> 'n cart_item option \<times> 'n store" where
  "select_cart_item env caller buyer pid st =
     (if fails env (call_no st) then (None, record_call (SelectCartItem buyer pid) True st)
      else (case filter (\<lambda>c. c_buyer_id c = buyer \<and> c_product_id c = pid
                              \<and> Some (c_buyer_id c) = caller) (cart_items st) of
              [] \<Rightarrow> (None, record_call (SelectCartItem buyer pid) False st)
            | [c] \<Rightarrow> (Some c, record_call (SelectCartItem buyer pid) False st)
            | _ \<Rightarrow> (None, record_call (SelectCartItem buyer pid) True st)))"

text \<open>
  Lines 386-390: \<^verbatim>\<open>.from('cart_items').insert({ buyer_id, product_id, quantity })\<close>. The
  table is declared with \<^verbatim>\<open>UNIQUE(buyer_id, product_id)\<close>, so the insert of a second row for
  the same buyer and product is answered with an error.
\<close>

definition insert_cart_item ::
  "env \<Rightarrow> string \<Rightarrow> string \<Rightarrow> 'n \<Rightarrow> 'n store \<Rightarrow> bool \<times> 'n store" where
  "insert_cart_item env buyer pid q st =
     (if fails env (call_no st)
         \<or> (\<exists>c \<in> set (cart_items st). c_buyer_id c = buyer \<and> c_product_id c = pid)
      then (True, record_call (InsertCartItem buyer pid q) True st)
      else (False, record_call (InsertCartItem buyer pid q) False
                     (st\<lparr>cart_items := cart_items st @
                          [\<lparr>c_id = generated_id env (call_no st), c_buyer_id = buyer,
                            c_product_id = pid, c_quantity = q\<rparr>]\<rparr>)))"

text \<open>
  \<^verbatim>\<open>loadCartCount\<close>, lines 342-357: the quantities of the buyer's rows are added up from 0
  and stored in \<^verbatim>\<open>cartCount\<close> (the \<^verbatim>\<open>|| 0\<close> of line 352 replaces a total of 0 by 0); an
  error is logged to the console only.
\<close>

definition loadCartCount ::
  "env \<Rightarrow> string option \<Rightarrow> ('n::{zero,plus}) app \<times> 'n store \<Rightarrow> 'n app \<times> 'n store" where
  "loadCartCount env user w =
     (case user of
        None \<Rightarrow> w
      | Some uid \<Rightarrow>
          (if fails env (call_no (snd w))
           then (fst w, record_call (SelectCartQuantities uid) True (snd w))
           else ((fst w)\<lparr>cartCount :=
                    foldl (\<lambda>sum q. sum + q) 0
                      (map c_quantity (filter (\<lambda>c. c_buyer_id c = uid) (cart_items (snd w))))\<rparr>,
                 record_call (SelectCartQuantities uid) False (snd w))))"

text \<open>
  \<^verbatim>\<open>handleAddToCart\<close>, lines 359-400. \<open>role\<close> is \<^verbatim>\<open>profile?.role\<close>, \<open>pid\<close> is
  \<^verbatim>\<open>product.id\<close>. A thrown error ends in the \<^verbatim>\<open>catch\<close> block, which alerts and changes
  no state.
\<close>

definition handleAddToCart ::
  "env \<Rightarrow> string option \<Rightarrow> string option \<Rightarrow> string \<Rightarrow> ('n::{zero,one,plus}) app \<times> 'n store
     \<Rightarrow> 'n app \<times> 'n store" where
  "handleAddToCart env user role pid w =
     (case user of
        None \<Rightarrow> ((fst w)\<lparr>showAuthModal := True\<rparr>, snd w)
      | Some uid \<Rightarrow>
          if role \<noteq> Some ''buyer'' then w
          else (case select_cart_item env user uid pid (snd w) of
                  (Some existingItem, st1) \<Rightarrow>
                    (case update_cart_quantity env user (c_id existingItem)
                            (c_quantity existingItem + 1) st1 of
                       (True, st2) \<Rightarrow> (fst w, st2)
                     | (False, st2) \<Rightarrow> loadCartCount env user (fst w, st2))
                | (None, st1) \<Rightarrow>
                    (case insert_cart_item env uid pid 1 st1 of
                       (True, st2) \<Rightarrow> (fst w, st2)
                     | (False, st2) \<Rightarrow> loadCartCount env user (fst w, st2))))"

section \<open>Notions used in the statements\<close>

text \<open>The rows and requests that a run adds: what the later store holds beyond the earlier.\<close>

definition created_orders :: "'n store \<Rightarrow> 'n store \<Rightarrow> 'n order_row list" where
  "created_orders st st' = drop (length (orders st)) (orders st')"

definition created_items :: "'n store \<Rightarrow> 'n store \<Rightarrow> 'n order_item list" where
  "created_items st st' = drop (length (order_items st)) (order_items st')"

definition new_calls :: "'n store \<Rightarrow> 'n store \<Rightarrow> ('n request \<times> bool) list" where
  "new_calls st st' = drop (length (calls st)) (calls st')"

text \<open>The order row that the loop body stores for the group \<open>g\<close>.\<close>

definition order_for ::
  "string \<Rightarrow> formData \<Rightarrow> string \<times> ('n::{zero,plus,times}) cart_line list \<Rightarrow> string \<Rightarrow> string
     \<Rightarrow> 'n order_row" where
  "order_for uid fd g num i = stored_order (order_values_of num uid fd (fst g) (snd g)) i"

definition is_order_for ::
  "string \<Rightarrow> formData \<Rightarrow> string \<times> ('n::{zero,plus,times}) cart_line list \<Rightarrow> 'n order_row \<Rightarrow> bool" where
  "is_order_for uid fd g o' = (o' = order_for uid fd g (o_order_number o') (o_id o'))"

text \<open>The stock update that the loop of lines 96-103 sends for a line.\<close>

definition stock_request :: "('n::minus) cart_line \<Rightarrow> 'n request" where
  "stock_request item =
     UpdateStock (c_product_id item) (p_stock_quantity (c_product item) - c_quantity item)"

text \<open>At most one cart row per buyer and product.\<close>

definition cart_key :: "'n cart_item \<Rightarrow> string \<times> string" where
  "cart_key c = (c_buyer_id c, c_product_id c)"

definition cart_unique :: "'n store \<Rightarrow> bool" where
  "cart_unique st = distinct (map cart_key (cart_items st))"

section \<open>The example scenario\<close>

text \<open>
  Two products of two sellers, a buyer \<open>B\<close> with one cart line for each, paying cash on
  delivery: product P1 (seller S1, price 199, stock 10) in quantity 2 and product P2
  (seller S2, price 299, stock 5) in quantity 1.
\<close>

definition ex_P1 :: "int product" where
  "ex_P1 = \<lparr>p_id = ''P1'', p_seller_id = ''S1'', p_price = 199, p_stock_quantity = 10\<rparr>"

definition ex_P2 :: "int product" where
  "ex_P2 = \<lparr>p_id = ''P2'', p_seller_id = ''S2'', p_price = 299, p_stock_quantity = 5\<rparr>"

definition ex_row1 :: "int cart_item" where
  "ex_row1 = \<lparr>c_id = ''c1'', c_buyer_id = ''B'', c_product_id = ''P1'', c_quantity = 2\<rparr>"

definition ex_row2 :: "int cart_item" where
  "ex_row2 = \<lparr>c_id = ''c2'', c_buyer_id = ''B'', c_product_id = ''P2'', c_quantity = 1\<rparr>"

definition ex_line1 :: "int cart_line" where
  "ex_line1 = joined ex_row1 ex_P1"

definition ex_line2 :: "int cart_line" where
  "ex_line2 = joined ex_row2 ex_P2"

definition ex_form :: formData where
  "ex_form = \<lparr>fullName = ''A Buyer'', phone = ''9999'', address = ''1 Main St'',
              city = ''Pune'', state = ''MH'', pincode = ''411001'', paymentMethod = ''cod''\<rparr>"

definition ex_store :: "int store" where
  "ex_store = \<lparr>products = [ex_P1, ex_P2], orders = [], order_items = [],
               cart_items = [ex_row1, ex_row2], calls = []\<rparr>"

text \<open>The same store with a cart row of another buyer, \<open>B2\<close>, between the two rows of \<open>B\<close>.\<close>

definition ex_row3 :: "int cart_item" where
  "ex_row3 = \<lparr>c_id = ''c3'', c_buyer_id = ''B2'', c_product_id = ''P1'', c_quantity = 7\<rparr>"

definition ex_store2 :: "int store" where
  "ex_store2 = \<lparr>products = [ex_P1, ex_P2], orders = [], order_items = [],
                cart_items = [ex_row1, ex_row3, ex_row2], calls = []\<rparr>"

text \<open>The cart component showing the two lines of \<open>B\<close>, and the state of \<^verbatim>\<open>App\<close>.\<close>

definition ex_modal :: "int cart_modal" where
  "ex_modal = \<lparr>cartItems = [ex_line1, ex_line2], loading = False\<rparr>"

definition ex_app :: "int app" where
  "ex_app = \<lparr>showAuthModal = False, cartCount = 3\<rparr>"

text \<open>An environment in which exactly the requests numbered in \<open>ks\<close> are answered with an error.\<close>

definition ex_env :: "nat list \<Rightarrow> env" where
  "ex_env ks = \<lparr>fails = (\<lambda>k. k \<in> set ks),
               generated_id = (\<lambda>k. replicate (Suc k) CHR ''x''),
               order_number_at = (\<lambda>k. ''ORD-'' @ replicate (Suc k) CHR ''7'')\<rparr>"

section \<open>Properties\<close>

text \<open>The equations that evaluate the example data and a checkout run.\<close>

lemmas ex_defs = ex_P1_def ex_P2_def ex_row1_def ex_row2_def ex_line1_def ex_line2_def
  ex_form_def ex_store_def ex_env_def joined_def ex_row3_def ex_store2_def ex_modal_def
  ex_app_def

lemmas run_defs = handleSubmit_def process_group_def insert_order_def insert_order_items_def
  decrement_stock_def update_stock_def delete_cart_def record_call_def call_no_def
  groupedBySeller_def sellerId_of_def order_values_of_def orderItems_of_def totalAmount_of_def
  stored_order_def address_of_def Let_def

subsection \<open>Properties of the grouping\<close>

lemma acc_push_keys:
  "map fst (acc_push acc k x) = (if k \<in> fst ` set acc then map fst acc else map fst acc @ [k])"
  by (induction acc k x rule: acc_push.induct) (auto simp: image_iff)

lemma acc_push_map_of:
  "map_of (acc_push acc k x) =
     (map_of acc)(k \<mapsto> (case map_of acc k of None \<Rightarrow> [x] | Some xs \<Rightarrow> xs @ [x]))"
  by (induction acc k x rule: acc_push.induct) (auto simp: fun_eq_iff)

lemma foldl_acc_push_keys_set:
  "fst ` set (foldl (\<lambda>acc item. acc_push acc (f item) item) acc items) = fst ` set acc \<union> f ` set items"
proof (induction items arbitrary: acc)
  case Nil
  show ?case by simp
next
  case (Cons a items)
  have "set (map fst (acc_push acc (f a) a)) = insert (f a) (set (map fst acc))"
    unfolding acc_push_keys by auto
  then have "fst ` set (acc_push acc (f a) a) = insert (f a) (fst ` set acc)"
    by simp
  with Cons.IH [of "acc_push acc (f a) a"] show ?case by auto
qed

lemma foldl_acc_push_distinct:
  "distinct (map fst acc) \<Longrightarrow>
   distinct (map fst (foldl (\<lambda>acc item. acc_push acc (f item) item) acc items))"
proof (induction items arbitrary: acc)
  case Nil
  then show ?case by simp
next
  case (Cons a items)
  have "distinct (map fst (acc_push acc (f a) a))"
    using Cons.prems by (simp add: acc_push_keys)
  with Cons.IH [of "acc_push acc (f a) a"] show ?case by simp
qed

lemma foldl_acc_push_map_of:
  "map_of (foldl (\<lambda>acc item. acc_push acc (f item) item) acc items) k =
     (if filter (\<lambda>item. f item = k) items = [] then map_of acc k
      else Some ((case map_of acc k of None \<Rightarrow> [] | Some xs \<Rightarrow> xs) @ filter (\<lambda>item. f item = k) items))"
proof (induction items arbitrary: acc)
  case Nil
  show ?case by simp
next
  case (Cons a items)
  show ?case
    using Cons.IH [of "acc_push acc (f a) a"]
    by (auto simp: acc_push_map_of split: option.splits)
qed

lemma groupedBySeller_keys: "fst ` set (groupedBySeller items) = sellerId_of ` set items"
  by (simp add: groupedBySeller_def foldl_acc_push_keys_set)

lemma groupedBySeller_distinct: "distinct (map fst (groupedBySeller items))"
  by (simp add: groupedBySeller_def foldl_acc_push_distinct)

lemma groupedBySeller_group:
  assumes "(s, ls) \<in> set (groupedBySeller items)"
  shows "ls = filter (\<lambda>item. sellerId_of item = s) items"
proof -
  have "map_of (groupedBySeller items) s = Some ls"
    using assms groupedBySeller_distinct [of items] by simp
  then show ?thesis
    by (simp add: groupedBySeller_def foldl_acc_push_map_of split: if_splits)
qed

subsection \<open>Effects of the checkout steps\<close>

lemma decrement_stock_frame:
  "orders (decrement_stock env uid st item) = orders st"
  "order_items (decrement_stock env uid st item) = order_items st"
  "cart_items (decrement_stock env uid st item) = cart_items st"
  "map fst (calls (decrement_stock env uid st item)) = map fst (calls st) @ [stock_request item]"
  by (simp_all add: decrement_stock_def update_stock_def record_call_def stock_request_def)

lemma decrement_all_frame:
  "orders (foldl (decrement_stock env uid) st ls) = orders st"
  "order_items (foldl (decrement_stock env uid) st ls) = order_items st"
  "cart_items (foldl (decrement_stock env uid) st ls) = cart_items st"
  "map fst (calls (foldl (decrement_stock env uid) st ls)) = map fst (calls st) @ map stock_request ls"
  by (induction ls arbitrary: st) (simp_all add: decrement_stock_frame)

lemma process_group_cases:
  fixes st :: "('n::{zero,plus,minus,times}) store"
  assumes "process_group env uid fd g st = (r, st')"
  shows "cart_items st' = cart_items st"
    and "r = Some OrderError \<Longrightarrow> orders st' = orders st \<and> order_items st' = order_items st"
    and "r \<noteq> Some OrderError \<Longrightarrow>
           orders st' = orders st @ [order_for uid fd g (order_number_at env (call_no st)) (generated_id env (call_no st))]"
    and "r = Some ItemsError \<Longrightarrow> order_items st' = order_items st"
    and "r = None \<Longrightarrow> order_items st' = order_items st @ orderItems_of (generated_id env (call_no st)) (snd g)"
  using assms
  by (auto simp: process_group_def insert_order_def insert_order_items_def record_call_def
      Let_def order_for_def decrement_all_frame split: if_splits)

lemma is_order_for_order_for [simp]: "is_order_for uid fd g (order_for uid fd g num i)"
  by (simp add: is_order_for_def order_for_def stored_order_def order_values_of_def)

lemma process_groups_created:
  fixes st :: "('n::{zero,plus,minus,times}) store"
  assumes "process_groups env uid fd gs st = (r, st')"
  shows "\<exists>os its. orders st' = orders st @ os \<and> order_items st' = order_items st @ its
            \<and> (\<forall>o' \<in> set os. \<exists>g \<in> set gs. is_order_for uid fd g o')
            \<and> (\<forall>it \<in> set its. \<exists>g \<in> set gs. \<exists>i. it \<in> set (orderItems_of i (snd g)))
            \<and> cart_items st' = cart_items st"
  using assms
proof (induction gs arbitrary: st)
  case Nil
  then show ?case by simp
next
  case (Cons g gs)
  obtain r1 st1 where g: "process_group env uid fd g st = (r1, st1)"
    by (cases "process_group env uid fd g st")
  let ?o = "order_for uid fd g (order_number_at env (call_no st)) (generated_id env (call_no st))"
  let ?its = "orderItems_of (generated_id env (call_no st)) (snd g)"
  note pg = process_group_cases [OF g]
  show ?case
  proof (cases r1)
    case None
    with g Cons.prems have rest: "process_groups env uid fd gs st1 = (r, st')"
      by simp
    from Cons.IH [OF rest] obtain os its where IH:
      "orders st' = orders st1 @ os" "order_items st' = order_items st1 @ its"
      "\<forall>o' \<in> set os. \<exists>g \<in> set gs. is_order_for uid fd g o'"
      "\<forall>it \<in> set its. \<exists>g \<in> set gs. \<exists>i. it \<in> set (orderItems_of i (snd g))"
      "cart_items st' = cart_items st1"
      by blast
    from pg None have st1: "orders st1 = orders st @ [?o]" "order_items st1 = order_items st @ ?its"
      "cart_items st1 = cart_items st"
      by simp_all
    show ?thesis
      apply (rule exI [of _ "?o # os"], rule exI [of _ "?its @ its"])
      using IH st1 by auto
  next
    case (Some e)
    with g Cons.prems have eq: "st' = st1" "r = Some e"
      by simp_all
    show ?thesis
    proof (cases e)
      case OrderError
      with pg Some eq show ?thesis by simp
    next
      case ItemsError
      with pg Some have "orders st1 = orders st @ [?o]" "order_items st1 = order_items st"
        "cart_items st1 = cart_items st"
        by simp_all
      then show ?thesis
        unfolding eq by (intro exI [of _ "[?o]"] exI [of _ "[]"]) simp
    qed
  qed
qed


lemma handleSubmit_Succeeded:
  fixes st :: "('n::{zero,plus,minus,times}) store"
  assumes "fst (handleSubmit env user fd items st) = Succeeded"
  obtains uid st1 where "user = Some uid"
    and "process_groups env uid fd (groupedBySeller items) st = (None, st1)"
    and "snd (handleSubmit env user fd items st) = snd (delete_cart env uid uid st1)"
  using assms by (auto simp: handleSubmit_def split: option.splits prod.splits)

lemma delete_cart_frame:
  "orders (snd (delete_cart env uid b st)) = orders st"
  "order_items (snd (delete_cart env uid b st)) = order_items st"
  "products (snd (delete_cart env uid b st)) = products st"
  by (simp_all add: delete_cart_def record_call_def)

lemma list_all2_map_eq: "list_all2 (\<lambda>x y. f x = g y) xs ys \<Longrightarrow> map g ys = map f xs"
  by (induction rule: list_all2_induct) simp_all

lemma is_order_for_fields:
  assumes "is_order_for uid fd g o'"
  shows "o_seller_id o' = fst g"
    and "o_buyer_id o' = uid"
    and "o_total_amount o' = totalAmount_of (snd g)"
    and "o_status o' = ''pending''"
    and "o_payment_status o' = (if paymentMethod fd = ''cod'' then ''pending'' else ''paid'')"
    and "o_payment_method o' = paymentMethod fd"
    and "o_shipping_address o' = address_of fd"
    and "o_billing_address o' = address_of fd"
proof -
  define x where "x = order_for uid fd g (o_order_number o') (o_id o')"
  have eq: "o' = x"
    using assms by (simp only: is_order_for_def x_def)
  have "o_seller_id x = fst g" "o_buyer_id x = uid" "o_total_amount x = totalAmount_of (snd g)"
    "o_status x = ''pending''"
    "o_payment_status x = (if paymentMethod fd = ''cod'' then ''pending'' else ''paid'')"
    "o_payment_method x = paymentMethod fd"
    "o_shipping_address x = address_of fd" "o_billing_address x = address_of fd"
    by (simp_all add: x_def order_for_def stored_order_def order_values_of_def)
  then show "o_seller_id o' = fst g"
    and "o_buyer_id o' = uid"
    and "o_total_amount o' = totalAmount_of (snd g)"
    and "o_status o' = ''pending''"
    and "o_payment_status o' = (if paymentMethod fd = ''cod'' then ''pending'' else ''paid'')"
    and "o_payment_method o' = paymentMethod fd"
    and "o_shipping_address o' = address_of fd"
    and "o_billing_address o' = address_of fd"
    unfolding eq by simp_all
qed

lemma process_groups_prefix:
  fixes st :: "('n::{zero,plus,minus,times}) store"
  assumes "process_groups env uid fd gs st = (r, st')"
  shows "\<exists>os m. orders st' = orders st @ os
            \<and> length os \<le> length gs
            \<and> list_all2 (is_order_for uid fd) (take (length os) gs) os
            \<and> order_items st' = order_items st @
                 concat (map2 (\<lambda>g o'. orderItems_of (o_id o') (snd g)) gs (take m os))
            \<and> (m = length os \<or> Suc m = length os)
            \<and> (r = None \<longrightarrow> m = length gs)
            \<and> cart_items st' = cart_items st"
  using assms
proof (induction gs arbitrary: st)
  case Nil
  then show ?case by simp
next
  case (Cons g gs)
  obtain r1 st1 where g: "process_group env uid fd g st = (r1, st1)"
    by (cases "process_group env uid fd g st")
  let ?o = "order_for uid fd g (order_number_at env (call_no st)) (generated_id env (call_no st))"
  let ?its = "orderItems_of (generated_id env (call_no st)) (snd g)"
  have oid: "o_id ?o = generated_id env (call_no st)"
    by (simp add: order_for_def stored_order_def)
  note pg = process_group_cases [OF g]
  show ?case
  proof (cases r1)
    case None
    with g Cons.prems have rest: "process_groups env uid fd gs st1 = (r, st')"
      by simp
    from Cons.IH [OF rest] obtain os m where IH:
      "orders st' = orders st1 @ os" "length os \<le> length gs"
      "list_all2 (is_order_for uid fd) (take (length os) gs) os"
      "order_items st' = order_items st1 @
         concat (map2 (\<lambda>g o'. orderItems_of (o_id o') (snd g)) gs (take m os))"
      "m = length os \<or> Suc m = length os" "r = None \<longrightarrow> m = length gs"
      "cart_items st' = cart_items st1"
      by blast
    from pg None have st1: "orders st1 = orders st @ [?o]" "order_items st1 = order_items st @ ?its"
      "cart_items st1 = cart_items st"
      by simp_all
    show ?thesis
      apply (rule exI [of _ "?o # os"], rule exI [of _ "Suc m"])
      using IH st1 oid by auto
  next
    case (Some e)
    with g Cons.prems have eq: "st' = st1" "r = Some e"
      by simp_all
    show ?thesis
    proof (cases e)
      case OrderError
      with pg Some eq show ?thesis
        by (intro exI [of _ "[]"] exI [of _ 0]) simp
    next
      case ItemsError
      with pg Some have "orders st1 = orders st @ [?o]" "order_items st1 = order_items st"
        "cart_items st1 = cart_items st"
        by simp_all
      then show ?thesis
        unfolding eq by (intro exI [of _ "[?o]"] exI [of _ 0]) simp
    qed
  qed
qed

lemma handleSubmit_structure:
  fixes st :: "('n::{zero,plus,minus,times}) store" and env user fd items
  defines "st' \<equiv> snd (handleSubmit env user fd items st)"
  defines "os \<equiv> created_orders st st'"
  shows "\<exists>m. orders st' = orders st @ os
           \<and> order_items st' = order_items st @ created_items st st'
           \<and> length os \<le> length (groupedBySeller items)
           \<and> list_all2 (is_order_for (the user) fd) (take (length os) (groupedBySeller items)) os
           \<and> created_items st st' =
                concat (map2 (\<lambda>g o'. orderItems_of (o_id o') (snd g)) (groupedBySeller items) (take m os))
           \<and> (m = length os \<or> Suc m = length os)
           \<and> (fst (handleSubmit env user fd items st) = Succeeded \<longrightarrow> m = length (groupedBySeller items))"
proof (cases user)
  case None
  then show ?thesis
    by (intro exI [of _ 0]) (simp add: os_def st'_def handleSubmit_def created_orders_def created_items_def)
next
  case (Some uid)
  obtain r st1 where run: "process_groups env uid fd (groupedBySeller items) st = (r, st1)"
    by (cases "process_groups env uid fd (groupedBySeller items) st")
  from process_groups_prefix [OF run] obtain os1 m where p:
    "orders st1 = orders st @ os1" "length os1 \<le> length (groupedBySeller items)"
    "list_all2 (is_order_for uid fd) (take (length os1) (groupedBySeller items)) os1"
    "order_items st1 = order_items st @
       concat (map2 (\<lambda>g o'. orderItems_of (o_id o') (snd g)) (groupedBySeller items) (take m os1))"
    "m = length os1 \<or> Suc m = length os1" "r = None \<longrightarrow> m = length (groupedBySeller items)"
    by blast
  have fin: "orders st' = orders st1" "order_items st' = order_items st1"
    and ok: "fst (handleSubmit env user fd items st) = Succeeded \<Longrightarrow> r = None"
    using run Some by (auto simp: st'_def handleSubmit_def delete_cart_frame split: option.splits)
  have os: "os = os1"
    by (simp add: os_def created_orders_def fin p)
  have ci: "created_items st st' =
      concat (map2 (\<lambda>g o'. orderItems_of (o_id o') (snd g)) (groupedBySeller items) (take m os1))"
    by (simp add: created_items_def fin p)
  show ?thesis
    using p ok Some by (intro exI [of _ m]) (simp add: os ci fin)
qed

lemma concat_map2_groups:
  assumes "list_all2 (\<lambda>g o'. o_seller_id o' = fst g \<and> snd g = h (fst g)) gs os"
  shows "concat (map2 (\<lambda>g o'. orderItems_of (o_id o') (snd g)) gs os) =
         concat (map (\<lambda>o'. orderItems_of (o_id o') (h (o_seller_id o'))) os)"
  using assms by (induction rule: list_all2_induct) simp_all

text \<open>
  Claim C1. For every list of cart lines, the grouping has one group per seller id that
  occurs in the input (the keys are distinct and are exactly the seller ids of the lines),
  and each group is the subsequence of the input lines of that seller, in their order and
  with nothing merged or dropped. In every run the orders created are appended to the
  table, one for each group of an initial segment of the groups, in the order of the
  groups; a checkout that completes has created one order for every group, as many as
  there are seller ids in the input, and for each order the line items built from exactly
  the lines of its seller.
\<close>

theorem C1_one_order_per_seller_group:
  fixes st :: "('n::{zero,plus,minus,times}) store" and env user fd items
  defines "st' \<equiv> snd (handleSubmit env user fd items st)"
  shows "distinct (map fst (groupedBySeller items))
       \<and> set (map fst (groupedBySeller items)) = sellerId_of ` set items
       \<and> (\<forall>g \<in> set (groupedBySeller items). snd g = filter (\<lambda>item. sellerId_of item = fst g) items)
       \<and> orders st' = orders st @ created_orders st st'
       \<and> order_items st' = order_items st @ created_items st st'
       \<and> map o_seller_id (created_orders st st') =
            take (length (created_orders st st')) (map fst (groupedBySeller items))
       \<and> (fst (handleSubmit env user fd items st) = Succeeded \<longrightarrow>
            map o_seller_id (created_orders st st') = map fst (groupedBySeller items)
          \<and> length (created_orders st st') = card (sellerId_of ` set items)
          \<and> created_items st st' =
              concat (map (\<lambda>o'. orderItems_of (o_id o')
                                   (filter (\<lambda>item. sellerId_of item = o_seller_id o') items))
                          (created_orders st st')))"
proof -
  define gs where "gs = groupedBySeller items"
  define os where "os = created_orders st st'"
  define its where "its = created_items st st'"
  define h where "h = (\<lambda>s. filter (\<lambda>item. sellerId_of item = s) items)"
  have d: "distinct (map fst gs)"
    unfolding gs_def by (rule groupedBySeller_distinct)
  have k: "set (map fst gs) = sellerId_of ` set items"
    unfolding gs_def using groupedBySeller_keys [of items] by simp
  have g: "\<forall>g \<in> set gs. snd g = h (fst g)"
    unfolding gs_def h_def using groupedBySeller_group [of _ _ items] by auto
  from handleSubmit_structure [where env = env and user = user and fd = fd and items = items
      and st = st, folded st'_def, folded gs_def os_def its_def]
  obtain m where o1: "orders st' = orders st @ os"
    and o2: "order_items st' = order_items st @ its"
    and len: "length os \<le> length gs"
    and all: "list_all2 (is_order_for (the user) fd) (take (length os) gs) os"
    and ci: "its = concat (map2 (\<lambda>g o'. orderItems_of (o_id o') (snd g)) gs (take m os))"
    and m: "m = length os \<or> Suc m = length os"
    and ok: "fst (handleSubmit env user fd items st) = Succeeded \<longrightarrow> m = length gs"
    by blast
  from all have all': "list_all2 (\<lambda>g o'. o_seller_id o' = fst g \<and> snd g = h (fst g)) (take (length os) gs) os"
  proof (rule list.rel_mono_strong)
    fix x o'
    assume x: "x \<in> set (take (length os) gs)" and p: "is_order_for (the user) fd x o'"
    from x have "x \<in> set gs" by (rule in_set_takeD)
    with g have "snd x = h (fst x)" by blast
    with is_order_for_fields(1) [OF p] show "o_seller_id o' = fst x \<and> snd x = h (fst x)"
      by simp
  qed
  then have "list_all2 (\<lambda>g o'. fst g = o_seller_id o') (take (length os) gs) os"
    by (rule list.rel_mono_strong) simp
  from list_all2_map_eq [OF this]
  have pre: "map o_seller_id os = take (length os) (map fst gs)"
    by (simp only: take_map)
  have fin: "map o_seller_id os = map fst gs \<and> length os = card (sellerId_of ` set items)
      \<and> its = concat (map (\<lambda>o'. orderItems_of (o_id o') (h (o_seller_id o'))) os)"
    if "fst (handleSubmit env user fd items st) = Succeeded"
  proof -
    from that ok have "m = length gs" by blast
    with m len have l: "length os = length gs" and ml: "m = length os" by linarith+
    from pre l have a: "map o_seller_id os = map fst gs" by simp
    have "length os = length (map fst gs)" using l by simp
    also have "\<dots> = card (set (map fst gs))"
      using d by (simp only: distinct_card)
    finally have b: "length os = card (sellerId_of ` set items)"
      by (simp only: k)
    from all' l have "list_all2 (\<lambda>g o'. o_seller_id o' = fst g \<and> snd g = h (fst g)) gs os"
      by simp
    from concat_map2_groups [OF this] ci ml
    have "its = concat (map (\<lambda>o'. orderItems_of (o_id o') (h (o_seller_id o'))) os)"
      by simp
    with a b show ?thesis by simp
  qed
  from d k g o1 o2 pre fin show ?thesis
    unfolding gs_def os_def its_def h_def by blast
qed

theorem C1_witness:
  "fst (handleSubmit (ex_env []) (Some ''B'') ex_form [ex_line1, ex_line2] ex_store) = Succeeded
   \<and> map o_seller_id (created_orders ex_store
         (snd (handleSubmit (ex_env []) (Some ''B'') ex_form [ex_line1, ex_line2] ex_store)))
       = [''S1'', ''S2'']
   \<and> groupedBySeller [ex_line1, ex_line2] = [(''S1'', [ex_line1]), (''S2'', [ex_line2])]"
proof -
  have ok: "fst (handleSubmit (ex_env []) (Some ''B'') ex_form [ex_line1, ex_line2] ex_store) = Succeeded"
    by (simp add: ex_defs run_defs)
  have g: "groupedBySeller [ex_line1, ex_line2] = [(''S1'', [ex_line1]), (''S2'', [ex_line2])]"
    by (simp add: ex_defs groupedBySeller_def sellerId_of_def)
  from C1_one_order_per_seller_group [of "[ex_line1, ex_line2]" "ex_env []" "Some ''B''" ex_form ex_store] ok
  have "map o_seller_id (created_orders ex_store
         (snd (handleSubmit (ex_env []) (Some ''B'') ex_form [ex_line1, ex_line2] ex_store)))
       = map fst (groupedBySeller [ex_line1, ex_line2])"
    by blast
  with ok g show ?thesis by simp
qed

subsection \<open>Amounts, order fields and the cart\<close>

lemma totalAmount_of_sum:
  "totalAmount_of ls = foldl (+) 0 (map oi_total_price (orderItems_of i ls))"
  by (simp add: totalAmount_of_def orderItems_of_def foldl_map)

lemma orderItems_of_filter:
  "filter (\<lambda>it. oi_order_id it = j) (orderItems_of i ls) = (if i = j then orderItems_of i ls else [])"
  by (induction ls) (simp_all add: orderItems_of_def)

lemma orderItems_of_fields:
  assumes "it \<in> set (orderItems_of i ls)"
  shows "oi_total_price it = oi_price_per_unit it * oi_quantity it"
    and "\<exists>item \<in> set ls. oi_product_id it = c_product_id item \<and> oi_quantity it = c_quantity item
           \<and> oi_price_per_unit it = p_price (c_product item)"
  using assms by (auto simp: orderItems_of_def)

lemma filter_other_blocks:
  assumes "length gs = length os" and "j \<notin> o_id ` set os"
  shows "filter (\<lambda>it. oi_order_id it = j)
           (concat (map2 (\<lambda>g o'. orderItems_of (o_id o') (snd g)) gs os)) = []"
  using assms by (induction gs os rule: list_induct2) (auto simp: orderItems_of_filter)

lemma filter_blocks:
  assumes "length gs = length os" and "distinct (map o_id os)" and "(g, o') \<in> set (zip gs os)"
  shows "filter (\<lambda>it. oi_order_id it = o_id o')
           (concat (map2 (\<lambda>g o'. orderItems_of (o_id o') (snd g)) gs os)) =
         orderItems_of (o_id o') (snd g)"
  using assms
proof (induction gs os rule: list_induct2)
  case Nil
  then show ?case by simp
next
  case (Cons x xs y ys)
  show ?case
  proof (cases "(g, o') = (x, y)")
    case True
    with Cons.prems(1) have "o_id y \<notin> o_id ` set ys" by simp
    from filter_other_blocks [OF Cons.hyps this] True show ?thesis
      by (simp add: orderItems_of_filter)
  next
    case False
    with Cons.prems have in_tl: "(g, o') \<in> set (zip xs ys)" by auto
    then have "o' \<in> set ys" by (rule set_zip_rightD)
    with Cons.prems(1) have "o_id y \<noteq> o_id o'" by auto
    with Cons.IH [OF _ in_tl] Cons.prems(1) show ?thesis
      by (simp add: orderItems_of_filter)
  qed
qed

lemma zip_take_right: "zip xs (take m ys) = zip (take m xs) (take m ys)"
proof (induction xs arbitrary: m ys)
  case Nil
  show ?case by simp
next
  case (Cons x xs)
  show ?case
  proof (cases m)
    case 0
    then show ?thesis by simp
  next
    case (Suc k)
    then show ?thesis
      by (cases ys) (simp_all add: Cons.IH)
  qed
qed

lemma group_nonempty:
  assumes "g \<in> set (groupedBySeller items)"
  shows "snd g \<noteq> []"
proof -
  from assms have "fst g \<in> fst ` set (groupedBySeller items)"
    by (rule imageI)
  then have "fst g \<in> sellerId_of ` set items"
    by (simp only: groupedBySeller_keys)
  then obtain item where "item \<in> set items" "sellerId_of item = fst g"
    by auto
  then have "filter (\<lambda>item. sellerId_of item = fst g) items \<noteq> []"
    by (auto simp: filter_empty_conv)
  moreover have "snd g = filter (\<lambda>item. sellerId_of item = fst g) items"
    using assms by (intro groupedBySeller_group) simp
  ultimately show ?thesis
    by simp
qed

lemma blocks_of_orders:
  fixes gs :: "(string \<times> ('n::{zero,plus,times}) cart_line list) list" and os :: "'n order_row list"
  assumes len: "length os \<le> length gs"
      and all: "list_all2 (is_order_for uid fd) (take (length os) gs) os"
      and its: "its = concat (map2 (\<lambda>g o'. orderItems_of (o_id o') (snd g)) gs (take m os))"
      and m: "m = length os \<or> Suc m = length os"
      and ids: "distinct (map o_id os)"
      and ne: "\<forall>g \<in> set gs. snd g \<noteq> []"
      and o': "o' \<in> set os"
  shows "(\<exists>it \<in> set its. oi_order_id it = o_id o') \<longrightarrow>
           o_total_amount o' =
             foldl (+) 0 (map oi_total_price (filter (\<lambda>it. oi_order_id it = o_id o') its))"
    and "m = length os \<longrightarrow> (\<exists>it \<in> set its. oi_order_id it = o_id o')"
proof -
  let ?f = "\<lambda>g o'. orderItems_of (o_id o') (snd g)"
  define gm where "gm = take m gs"
  define om where "om = take m os"
  have its': "its = concat (map2 ?f gm om)"
    unfolding gm_def om_def its by (simp only: zip_take_right [of gs m os])
  have lm: "length gm = length om"
    using m len unfolding gm_def om_def by auto
  have "distinct (take m (map o_id os))"
    using ids by (rule distinct_take)
  then have idm: "distinct (map o_id om)"
    unfolding om_def by (simp only: take_map)
  have zm: "zip gm om = take m (zip (take (length os) gs) os)"
    using m unfolding gm_def om_def by (auto simp: take_zip min_def)
  have inside: "o_total_amount o' =
        foldl (+) 0 (map oi_total_price (filter (\<lambda>it. oi_order_id it = o_id o') its))
      \<and> (\<exists>it \<in> set its. oi_order_id it = o_id o')"
    if mem: "o' \<in> set om"
  proof -
    from mem lm obtain g where z: "(g, o') \<in> set (zip gm om)"
      by (metis in_set_impl_in_set_zip2)
    then have "(g, o') \<in> set (zip (take (length os) gs) os)"
      unfolding zm by (rule in_set_takeD)
    with all have p: "is_order_for uid fd g o'"
      unfolding list_all2_iff by blast
    have blk: "filter (\<lambda>it. oi_order_id it = o_id o') its = orderItems_of (o_id o') (snd g)"
      unfolding its' by (rule filter_blocks [OF lm idm z])
    from p have "o_total_amount o' = totalAmount_of (snd g)"
      by (rule is_order_for_fields)
    also have "\<dots> = foldl (+) 0 (map oi_total_price (orderItems_of (o_id o') (snd g)))"
      by (rule totalAmount_of_sum)
    finally have t: "o_total_amount o' =
        foldl (+) 0 (map oi_total_price (filter (\<lambda>it. oi_order_id it = o_id o') its))"
      unfolding blk .
    from z have "g \<in> set gm" by (rule set_zip_leftD)
    then have "g \<in> set gs" unfolding gm_def by (rule in_set_takeD)
    with ne have "snd g \<noteq> []" by blast
    then have "orderItems_of (o_id o') (snd g) \<noteq> []"
      by (simp add: orderItems_of_def)
    then have "filter (\<lambda>it. oi_order_id it = o_id o') its \<noteq> []"
      unfolding blk .
    then have "\<exists>it \<in> set its. oi_order_id it = o_id o'"
      unfolding filter_empty_conv by blast
    with t show ?thesis by (rule conjI)
  qed
  have outside: "\<not> (\<exists>it \<in> set its. oi_order_id it = o_id o')"
    if nmem: "o' \<notin> set om"
  proof -
    have "os = om @ drop m os"
      unfolding om_def by simp
    with o' nmem have d: "o' \<in> set (drop m os)"
      by (metis Un_iff set_append)
    have "map o_id os = map o_id om @ map o_id (drop m os)"
      unfolding om_def by (simp only: map_append [symmetric] append_take_drop_id)
    with ids have "distinct (map o_id om @ map o_id (drop m os))"
      by (simp only:)
    with d have "o_id o' \<notin> o_id ` set om"
      by auto
    from filter_other_blocks [OF lm this]
    have "filter (\<lambda>it. oi_order_id it = o_id o') its = []"
      unfolding its' .
    then show ?thesis
      unfolding filter_empty_conv by blast
  qed
  from inside outside show "(\<exists>it \<in> set its. oi_order_id it = o_id o') \<longrightarrow>
           o_total_amount o' =
             foldl (+) 0 (map oi_total_price (filter (\<lambda>it. oi_order_id it = o_id o') its))"
    by blast
  show "m = length os \<longrightarrow> (\<exists>it \<in> set its. oi_order_id it = o_id o')"
  proof
    assume "m = length os"
    then have "om = os" unfolding om_def by simp
    with o' inside show "\<exists>it \<in> set its. oi_order_id it = o_id o'"
      by simp
  qed
qed

text \<open>
  Claim C2, as the code has it. Where the store has given the created orders ids that
  differ from one another: in every run, each created order for which line items were
  created has a total amount equal to the sum (taken from 0, in the order of the rows) of
  the total prices of the created line items that carry its id; in a checkout that
  completes every created order has such line items; and every created line item has a
  total price equal to its price per unit times its quantity, the price per unit,
  quantity and product id being those of a cart line of the input, the price being the one
  of the line's product snapshot. What is left out is the order of a group whose line-item
  insert was answered with an error: it stays in the table without line items.
\<close>

theorem C2_amounts:
  fixes st :: "('n::{zero,plus,minus,times}) store" and env user fd items
  defines "st' \<equiv> snd (handleSubmit env user fd items st)"
  assumes ids: "distinct (map o_id (created_orders st st'))"
  shows "(\<forall>o' \<in> set (created_orders st st').
            (\<exists>it \<in> set (created_items st st'). oi_order_id it = o_id o') \<longrightarrow>
            o_total_amount o' =
              foldl (+) 0 (map oi_total_price
                (filter (\<lambda>it. oi_order_id it = o_id o') (created_items st st'))))
       \<and> (fst (handleSubmit env user fd items st) = Succeeded \<longrightarrow>
            (\<forall>o' \<in> set (created_orders st st').
               \<exists>it \<in> set (created_items st st'). oi_order_id it = o_id o'))
       \<and> (\<forall>it \<in> set (created_items st st').
            oi_total_price it = oi_price_per_unit it * oi_quantity it
          \<and> (\<exists>item \<in> set items. oi_product_id it = c_product_id item
                \<and> oi_quantity it = c_quantity item
                \<and> oi_price_per_unit it = p_price (c_product item)))"
proof -
  define gs where "gs = groupedBySeller items"
  define os where "os = created_orders st st'"
  define its where "its = created_items st st'"
  from handleSubmit_structure [where env = env and user = user and fd = fd and items = items
      and st = st, folded st'_def, folded gs_def os_def its_def]
  obtain m where len: "length os \<le> length gs"
    and all: "list_all2 (is_order_for (the user) fd) (take (length os) gs) os"
    and ci: "its = concat (map2 (\<lambda>g o'. orderItems_of (o_id o') (snd g)) gs (take m os))"
    and m: "m = length os \<or> Suc m = length os"
    and ok: "fst (handleSubmit env user fd items st) = Succeeded \<longrightarrow> m = length gs"
    by blast
  have ne: "\<forall>g \<in> set gs. snd g \<noteq> []"
    unfolding gs_def
  proof
    fix g assume "g \<in> set (groupedBySeller items)"
    then show "snd g \<noteq> []" by (rule group_nonempty)
  qed
  from ids have ids': "distinct (map o_id os)"
    unfolding os_def .
  note b = blocks_of_orders [OF len all ci m ids' ne]
  have totals: "\<forall>o' \<in> set os. (\<exists>it \<in> set its. oi_order_id it = o_id o') \<longrightarrow>
      o_total_amount o' =
        foldl (+) 0 (map oi_total_price (filter (\<lambda>it. oi_order_id it = o_id o') its))"
    using b(1) by blast
  have complete: "\<forall>o' \<in> set os. \<exists>it \<in> set its. oi_order_id it = o_id o'"
    if "fst (handleSubmit env user fd items st) = Succeeded"
  proof -
    from that ok have "m = length gs" by blast
    with m len have "m = length os" by linarith
    with b(2) show ?thesis by blast
  qed
  have lines: "oi_total_price it = oi_price_per_unit it * oi_quantity it
      \<and> (\<exists>item \<in> set items. oi_product_id it = c_product_id item
            \<and> oi_quantity it = c_quantity item
            \<and> oi_price_per_unit it = p_price (c_product item))"
    if "it \<in> set its" for it
  proof -
    from that obtain g o' where z: "(g, o') \<in> set (zip gs (take m os))"
      and it: "it \<in> set (orderItems_of (o_id o') (snd g))"
      unfolding ci by auto
    from z have "g \<in> set gs" by (rule set_zip_leftD)
    then have sub: "set (snd g) \<subseteq> set items"
      unfolding gs_def using groupedBySeller_group [of "fst g" "snd g" items] by auto
    from orderItems_of_fields [OF it] sub show ?thesis
      by blast
  qed
  from totals complete lines show ?thesis
    unfolding os_def its_def by blast
qed

theorem C2_witness:
  "distinct (map o_id (created_orders ex_store
         (snd (handleSubmit (ex_env []) (Some ''B'') ex_form [ex_line1, ex_line2] ex_store))))
   \<and> fst (handleSubmit (ex_env []) (Some ''B'') ex_form [ex_line1, ex_line2] ex_store) = Succeeded
   \<and> o_total_amount (hd (created_orders ex_store
         (snd (handleSubmit (ex_env []) (Some ''B'') ex_form [ex_line1, ex_line2] ex_store)))) = 398
   \<and> foldl (+) 0 (map oi_total_price
         (filter (\<lambda>it. oi_order_id it = ''x'')
            (created_items ex_store
               (snd (handleSubmit (ex_env []) (Some ''B'') ex_form [ex_line1, ex_line2] ex_store))))) = 398"
proof -
  let ?st' = "snd (handleSubmit (ex_env []) (Some ''B'') ex_form [ex_line1, ex_line2] ex_store)"
  have ok: "fst (handleSubmit (ex_env []) (Some ''B'') ex_form [ex_line1, ex_line2] ex_store) = Succeeded"
    by (simp add: ex_defs run_defs)
  have ids: "distinct (map o_id (created_orders ex_store ?st'))"
    by (simp add: ex_defs run_defs created_orders_def)
  have hd: "hd (created_orders ex_store ?st') \<in> set (created_orders ex_store ?st')"
    and i: "o_id (hd (created_orders ex_store ?st')) = ''x''"
    and t: "o_total_amount (hd (created_orders ex_store ?st')) = 398"
    by (simp_all add: ex_defs run_defs created_orders_def)
  from C2_amounts [OF ids] ok hd
  have "o_total_amount (hd (created_orders ex_store ?st')) =
      foldl (+) 0 (map oi_total_price
        (filter (\<lambda>it. oi_order_id it = o_id (hd (created_orders ex_store ?st')))
           (created_items ex_store ?st')))"
    by blast
  then have "398 = foldl (+) 0 (map oi_total_price
        (filter (\<lambda>it. oi_order_id it = ''x'') (created_items ex_store ?st')))"
    by (simp only: i t)
  then have "foldl (+) 0 (map oi_total_price
        (filter (\<lambda>it. oi_order_id it = ''x'') (created_items ex_store ?st'))) = 398"
    by (rule sym)
  with ok ids t show ?thesis
    by (intro conjI)
qed

text \<open>
  Claim C2 as it is stated, for every created order, fails where the line-item insert is
  answered with an error (request 1): the order of the group is in the table with its
  total amount, 398, and there is no line item, so the sum over its line items is 0.
\<close>

theorem C2_order_without_items:
  "fst (handleSubmit (ex_env [1]) (Some ''B'') ex_form [ex_line1] ex_store) = Failed
   \<and> map o_total_amount (created_orders ex_store
         (snd (handleSubmit (ex_env [1]) (Some ''B'') ex_form [ex_line1] ex_store))) = [398]
   \<and> order_items (snd (handleSubmit (ex_env [1]) (Some ''B'') ex_form [ex_line1] ex_store)) = []
   \<and> o_total_amount (hd (created_orders ex_store
         (snd (handleSubmit (ex_env [1]) (Some ''B'') ex_form [ex_line1] ex_store))))
       \<noteq> foldl (+) 0 (map oi_total_price
             (filter (\<lambda>it. oi_order_id it = o_id (hd (created_orders ex_store
                  (snd (handleSubmit (ex_env [1]) (Some ''B'') ex_form [ex_line1] ex_store)))))
                (order_items (snd (handleSubmit (ex_env [1]) (Some ''B'') ex_form [ex_line1] ex_store)))))"
  by (simp add: ex_defs run_defs created_orders_def)

lemma handleSubmit_created:
  fixes st :: "('n::{zero,plus,minus,times}) store" and env user fd items
  defines "st' \<equiv> snd (handleSubmit env user fd items st)"
  shows "orders st' = orders st @ created_orders st st'"
    and "\<forall>o' \<in> set (created_orders st st'). \<exists>g. is_order_for (the user) fd g o'"
    and "fst (handleSubmit env user fd items st) \<noteq> Succeeded \<Longrightarrow> cart_items st' = cart_items st"
proof -
  have "orders st' = orders st @ created_orders st st'
      \<and> (\<forall>o' \<in> set (created_orders st st'). \<exists>g. is_order_for (the user) fd g o')
      \<and> (fst (handleSubmit env user fd items st) \<noteq> Succeeded \<longrightarrow> cart_items st' = cart_items st)"
  proof (cases user)
    case None
    then show ?thesis by (simp add: st'_def handleSubmit_def created_orders_def)
  next
    case (Some uid)
    obtain r st1 where run: "process_groups env uid fd (groupedBySeller items) st = (r, st1)"
      by (cases "process_groups env uid fd (groupedBySeller items) st")
    from process_groups_created [OF run] obtain os where os:
      "orders st1 = orders st @ os" "\<forall>o' \<in> set os. \<exists>g. is_order_for uid fd g o'"
      "cart_items st1 = cart_items st"
      by blast
    have "orders st' = orders st1" and "r \<noteq> None \<Longrightarrow> st' = st1"
      and "fst (handleSubmit env user fd items st) \<noteq> Succeeded \<Longrightarrow> r \<noteq> None"
      using run Some by (auto simp: st'_def handleSubmit_def delete_cart_frame split: option.splits)
    with os Some show ?thesis
      by (auto simp: created_orders_def)
  qed
  then show "orders st' = orders st @ created_orders st st'"
    and "\<forall>o' \<in> set (created_orders st st'). \<exists>g. is_order_for (the user) fd g o'"
    and "fst (handleSubmit env user fd items st) \<noteq> Succeeded \<Longrightarrow> cart_items st' = cart_items st"
    by simp_all
qed

text \<open>
  Claim C7. Whatever the run, the orders it has created are appended to the table, and each
  has status \<^verbatim>\<open>pending\<close>, payment status \<^verbatim>\<open>pending\<close> when the payment method of the
  form is \<^verbatim>\<open>cod\<close> (cash on delivery) and \<^verbatim>\<open>paid\<close> otherwise, and a shipping address and
  a billing address that both hold, field by field, the full name, phone, address, city,
  state and pincode entered in the form.
\<close>

theorem C7_order_fields:
  fixes st :: "('n::{zero,plus,minus,times}) store" and env user fd items
  defines "st' \<equiv> snd (handleSubmit env user fd items st)"
  shows "orders st' = orders st @ created_orders st st'
       \<and> (\<forall>o' \<in> set (created_orders st st').
             o_status o' = ''pending''
           \<and> o_payment_status o' = (if paymentMethod fd = ''cod'' then ''pending'' else ''paid'')
           \<and> o_shipping_address o' =
                \<lparr>fullName = fullName fd, phone = phone fd, address = address fd,
                 city = city fd, state = state fd, pincode = pincode fd\<rparr>
           \<and> o_billing_address o' =
                \<lparr>fullName = fullName fd, phone = phone fd, address = address fd,
                 city = city fd, state = state fd, pincode = pincode fd\<rparr>
           \<and> o_billing_address o' = o_shipping_address o')"
proof -
  note c = handleSubmit_created(1,2) [where env = env and user = user and fd = fd
      and items = items and st = st, folded st'_def]
  have "o_status o' = ''pending''
      \<and> o_payment_status o' = (if paymentMethod fd = ''cod'' then ''pending'' else ''paid'')
      \<and> o_shipping_address o' =
           \<lparr>fullName = fullName fd, phone = phone fd, address = address fd,
            city = city fd, state = state fd, pincode = pincode fd\<rparr>
      \<and> o_billing_address o' =
           \<lparr>fullName = fullName fd, phone = phone fd, address = address fd,
            city = city fd, state = state fd, pincode = pincode fd\<rparr>
      \<and> o_billing_address o' = o_shipping_address o'"
    if "o' \<in> set (created_orders st st')" for o'
  proof -
    from that c(2) obtain g where "is_order_for (the user) fd g o'"
      by blast
    from is_order_for_fields(4,5,7,8) [OF this] show ?thesis
      by (simp only: address_of_def)
  qed
  with c(1) show ?thesis by blast
qed

theorem C7_witness:
  "created_orders ex_store
     (snd (handleSubmit (ex_env []) (Some ''B'') ex_form [ex_line1, ex_line2] ex_store)) \<noteq> []
   \<and> o_status (hd (created_orders ex_store
        (snd (handleSubmit (ex_env []) (Some ''B'') ex_form [ex_line1, ex_line2] ex_store)))) = ''pending''
   \<and> o_payment_status (hd (created_orders ex_store
        (snd (handleSubmit (ex_env []) (Some ''B'') ex_form [ex_line1, ex_line2] ex_store)))) = ''pending''
   \<and> o_shipping_address (hd (created_orders ex_store
        (snd (handleSubmit (ex_env []) (Some ''B'') ex_form [ex_line1, ex_line2] ex_store))))
       = \<lparr>fullName = ''A Buyer'', phone = ''9999'', address = ''1 Main St'',
          city = ''Pune'', state = ''MH'', pincode = ''411001''\<rparr>
   \<and> o_billing_address (hd (created_orders ex_store
        (snd (handleSubmit (ex_env []) (Some ''B'') ex_form [ex_line1, ex_line2] ex_store))))
       = \<lparr>fullName = ''A Buyer'', phone = ''9999'', address = ''1 Main St'',
          city = ''Pune'', state = ''MH'', pincode = ''411001''\<rparr>
   \<and> created_orders ex_store
     (snd (handleSubmit (ex_env []) (Some ''B'') (ex_form\<lparr>paymentMethod := ''upi''\<rparr>) [ex_line1] ex_store)) \<noteq> []
   \<and> o_payment_status (hd (created_orders ex_store
        (snd (handleSubmit (ex_env []) (Some ''B'') (ex_form\<lparr>paymentMethod := ''upi''\<rparr>) [ex_line1] ex_store)))) = ''paid''"
proof -
  let ?os = "created_orders ex_store
     (snd (handleSubmit (ex_env []) (Some ''B'') ex_form [ex_line1, ex_line2] ex_store))"
  let ?fu = "ex_form\<lparr>paymentMethod := ''upi''\<rparr>"
  let ?ou = "created_orders ex_store
     (snd (handleSubmit (ex_env []) (Some ''B'') ?fu [ex_line1] ex_store))"
  have ne: "?os \<noteq> []"
    by (simp add: ex_defs run_defs created_orders_def)
  then have "hd ?os \<in> set ?os" by (rule hd_in_set)
  with C7_order_fields [of "ex_env []" "Some ''B''" ex_form "[ex_line1, ex_line2]" ex_store]
  have a: "o_status (hd ?os) = ''pending''
      \<and> o_payment_status (hd ?os) = (if paymentMethod ex_form = ''cod'' then ''pending'' else ''paid'')
      \<and> o_shipping_address (hd ?os) =
           \<lparr>fullName = fullName ex_form, phone = phone ex_form, address = address ex_form,
            city = city ex_form, state = state ex_form, pincode = pincode ex_form\<rparr>
      \<and> o_billing_address (hd ?os) =
           \<lparr>fullName = fullName ex_form, phone = phone ex_form, address = address ex_form,
            city = city ex_form, state = state ex_form, pincode = pincode ex_form\<rparr>"
    by blast
  have neu: "?ou \<noteq> []"
    by (simp add: ex_defs run_defs created_orders_def)
  then have "hd ?ou \<in> set ?ou" by (rule hd_in_set)
  with C7_order_fields [of "ex_env []" "Some ''B''" ?fu "[ex_line1]" ex_store]
  have b: "o_payment_status (hd ?ou) = (if paymentMethod ?fu = ''cod'' then ''pending'' else ''paid'')"
    by blast
  have f: "paymentMethod ex_form = ''cod''" "fullName ex_form = ''A Buyer''" "phone ex_form = ''9999''"
    "address ex_form = ''1 Main St''" "city ex_form = ''Pune''" "state ex_form = ''MH''"
    "pincode ex_form = ''411001''" "paymentMethod ?fu = ''upi''"
    by (simp_all add: ex_form_def)
  from a b ne neu show ?thesis
    unfolding f by simp
qed

text \<open>
  A checkout that reports success has sent the delete of the buyer's cart rows as its last
  request, whatever lines were checked out and however many groups there were; the rows
  of the buyer are gone, and those of other buyers kept, exactly when that request is
  answered without error.
\<close>

lemma checkout_success_sends_delete:
  fixes st :: "('n::{zero,plus,minus,times}) store" and env uid fd items
  defines "st' \<equiv> snd (handleSubmit env (Some uid) fd items st)"
  assumes ok: "fst (handleSubmit env (Some uid) fd items st) = Succeeded"
  shows "\<exists>k. calls st' \<noteq> []
           \<and> last (calls st') = (DeleteCart uid, fails env k)
           \<and> cart_items st' = (if fails env k then cart_items st
                               else filter (\<lambda>c. c_buyer_id c \<noteq> uid) (cart_items st))"
proof -
  from ok obtain u st1 where u: "Some uid = Some u"
    and run: "process_groups env u fd (groupedBySeller items) st = (None, st1)"
    and fin: "st' = snd (delete_cart env u u st1)"
    unfolding st'_def by (rule handleSubmit_Succeeded)
  from process_groups_created [OF run] have cart: "cart_items st1 = cart_items st"
    by blast
  show ?thesis
    using u cart unfolding fin
    by (intro exI [of _ "call_no st1"]) (simp add: delete_cart_def record_call_def)
qed

text \<open>
  Claim C6, evaluated where it fails. The buyer \<open>B\<close> checks out one line while the cart
  table holds two rows of \<open>B\<close> and one of another buyer; the order insert, the line-item
  insert and the stock update are answered without error, so the one seller group is
  processed without error, and the delete of the cart (request 3) is answered with an
  error. That response is not inspected: the run reports success and both rows of \<open>B\<close>
  are still in the table. With no error at all, only the row of the other buyer is left.
\<close>

theorem C6_cart_kept_after_failed_delete:
  "fst (handleSubmit (ex_env [3]) (Some ''B'') ex_form [ex_line1] ex_store2) = Succeeded
   \<and> map snd (calls (snd (handleSubmit (ex_env [3]) (Some ''B'') ex_form [ex_line1] ex_store2)))
       = [False, False, False, True]
   \<and> last (calls (snd (handleSubmit (ex_env [3]) (Some ''B'') ex_form [ex_line1] ex_store2)))
       = (DeleteCart ''B'', True)
   \<and> cart_items (snd (handleSubmit (ex_env [3]) (Some ''B'') ex_form [ex_line1] ex_store2))
       = [ex_row1, ex_row3, ex_row2]
   \<and> cart_items (snd (handleSubmit (ex_env []) (Some ''B'') ex_form [ex_line1] ex_store2))
       = [ex_row3]"
  by (simp add: ex_defs run_defs)

text \<open>
  Claim C8. A checkout of the empty list of lines has no group, stores no order and no line
  item, touches no product, sends exactly one request, the delete of the buyer's cart
  rows (which removes them unless the store answers with an error), and reports success.
\<close>

theorem C8_empty_cart_checkout:
  fixes st :: "('n::{zero,plus,minus,times}) store" and env uid fd
  defines "st' \<equiv> snd (handleSubmit env (Some uid) fd [] st)"
  shows "fst (handleSubmit env (Some uid) fd [] st) = Succeeded
       \<and> groupedBySeller ([] :: 'n cart_line list) = []
       \<and> orders st' = orders st
       \<and> order_items st' = order_items st
       \<and> products st' = products st
       \<and> calls st' = calls st @ [(DeleteCart uid, fails env (call_no st))]
       \<and> cart_items st' = (if fails env (call_no st) then cart_items st
                           else filter (\<lambda>c. c_buyer_id c \<noteq> uid) (cart_items st))"
  by (simp add: st'_def handleSubmit_def groupedBySeller_def delete_cart_def record_call_def)

theorem C8_witness:
  "fst (handleSubmit (ex_env []) (Some ''B'') ex_form [] ex_store2) = Succeeded
   \<and> orders (snd (handleSubmit (ex_env []) (Some ''B'') ex_form [] ex_store2)) = []
   \<and> cart_items (snd (handleSubmit (ex_env []) (Some ''B'') ex_form [] ex_store2)) = [ex_row3]"
proof -
  note t = C8_empty_cart_checkout [of "ex_env []" "''B''" ex_form ex_store2]
  have "\<not> fails (ex_env []) (call_no ex_store2)" by (simp add: ex_env_def)
  moreover have "filter (\<lambda>c. c_buyer_id c \<noteq> ''B'') (cart_items ex_store2) = [ex_row3]"
    by (simp add: ex_defs)
  moreover have "orders ex_store2 = []" by (simp add: ex_defs)
  ultimately show ?thesis using t by simp
qed

subsection \<open>A failure in the second group\<close>

lemma decrement_all_call_no:
  "call_no (foldl (decrement_stock env uid) st ls) = call_no st + length ls"
proof -
  have "length (map fst (calls (foldl (decrement_stock env uid) st ls))) =
        length (map fst (calls st) @ map stock_request ls)"
    by (simp only: decrement_all_frame)
  then show ?thesis by (simp add: call_no_def)
qed

lemma process_group_done:
  fixes st :: "('n::{zero,plus,minus,times}) store"
  assumes "\<not> fails env (call_no st)" and "\<not> fails env (call_no st + 1)"
  obtains st1 where "process_group env uid fd g st = (None, st1)"
    and "orders st1 = orders st @ [order_for uid fd g (order_number_at env (call_no st)) (generated_id env (call_no st))]"
    and "order_items st1 = order_items st @ orderItems_of (generated_id env (call_no st)) (snd g)"
    and "cart_items st1 = cart_items st"
    and "call_no st1 = call_no st + 2 + length (snd g)"
    and "map fst (calls st1) = map fst (calls st) @
           [InsertOrder (order_values_of (order_number_at env (call_no st)) uid fd (fst g) (snd g)),
            InsertOrderItems (orderItems_of (generated_id env (call_no st)) (snd g))] @
           map stock_request (snd g)"
proof -
  obtain r st1 where g: "process_group env uid fd g st = (r, st1)"
    by (cases "process_group env uid fd g st")
  let ?A = "record_call (InsertOrder (order_values_of (order_number_at env (call_no st)) uid fd (fst g) (snd g))) False
              (st\<lparr>orders := orders st @ [stored_order (order_values_of (order_number_at env (call_no st)) uid fd (fst g) (snd g)) (generated_id env (call_no st))]\<rparr>)"
  let ?B = "record_call (InsertOrderItems (orderItems_of (generated_id env (call_no st)) (snd g))) False
              (?A\<lparr>order_items := order_items ?A @ orderItems_of (generated_id env (call_no st)) (snd g)\<rparr>)"
  have cA: "call_no ?A = call_no st + 1"
    by (simp add: call_no_def record_call_def)
  have eq: "process_group env uid fd g st = (None, foldl (decrement_stock env uid) ?B (snd g))"
    using assms cA by (simp add: process_group_def insert_order_def insert_order_items_def Let_def)
  with g have r: "r = None" and st1: "st1 = foldl (decrement_stock env uid) ?B (snd g)"
    by simp_all
  have cB: "call_no ?B = call_no st + 2"
    by (simp add: call_no_def record_call_def)
  show ?thesis
  proof (rule that [of st1])
    show "process_group env uid fd g st = (None, st1)" using g r by simp
    show "orders st1 = orders st @ [order_for uid fd g (order_number_at env (call_no st)) (generated_id env (call_no st))]"
      using process_group_cases(3) [OF g] r by simp
    show "order_items st1 = order_items st @ orderItems_of (generated_id env (call_no st)) (snd g)"
      using process_group_cases(5) [OF g] r by simp
    show "cart_items st1 = cart_items st"
      using process_group_cases(1) [OF g] .
    show "call_no st1 = call_no st + 2 + length (snd g)"
      by (simp add: st1 decrement_all_call_no cB)
    show "map fst (calls st1) = map fst (calls st) @
           [InsertOrder (order_values_of (order_number_at env (call_no st)) uid fd (fst g) (snd g)),
            InsertOrderItems (orderItems_of (generated_id env (call_no st)) (snd g))] @
           map stock_request (snd g)"
      by (simp add: st1 decrement_all_frame record_call_def)
  qed
qed

lemma process_group_order_fails:
  fixes st :: "('n::{zero,plus,minus,times}) store"
  assumes "fails env (call_no st)"
  shows "process_group env uid fd g st =
     (Some OrderError,
      record_call (InsertOrder (order_values_of (order_number_at env (call_no st)) uid fd (fst g) (snd g))) True st)"
  using assms by (simp add: process_group_def insert_order_def Let_def)

text \<open>
  Claim C4. Take a checkout whose lines fall into two seller groups, the first group's order
  insert and line-item insert being answered without error and the second group's order
  insert with an error (it is request number \<open>k + 2 + length l1\<close>, after the two inserts
  and the stock updates of the first group). Then the run reports failure; the first
  group's order and line items are in the store; the cart table is as it was; and the
  requests sent are the first group's inserts and stock updates and the failed insert,
  nothing after it: no delete of the order or of its items, no delete of the cart.
\<close>

theorem C4_partial_failure:
  fixes st :: "('n::{zero,plus,minus,times}) store" and env uid fd items s1 l1 s2 l2
  defines "st' \<equiv> snd (handleSubmit env (Some uid) fd items st)"
  defines "k \<equiv> call_no st"
  assumes groups: "groupedBySeller items = [(s1, l1), (s2, l2)]"
      and order1: "\<not> fails env k"
      and items1: "\<not> fails env (k + 1)"
      and order2: "fails env (k + 2 + length l1)"
  shows "fst (handleSubmit env (Some uid) fd items st) = Failed
       \<and> orders st' = orders st @ [order_for uid fd (s1, l1) (order_number_at env k) (generated_id env k)]
       \<and> order_items st' = order_items st @ orderItems_of (generated_id env k) l1
       \<and> cart_items st' = cart_items st
       \<and> map fst (new_calls st st') =
            [InsertOrder (order_values_of (order_number_at env k) uid fd s1 l1),
             InsertOrderItems (orderItems_of (generated_id env k) l1)]
            @ map stock_request l1
            @ [InsertOrder (order_values_of (order_number_at env (k + 2 + length l1)) uid fd s2 l2)]"
proof -
  from order1 items1 obtain st1 where g1: "process_group env uid fd (s1, l1) st = (None, st1)"
    and st1: "orders st1 = orders st @ [order_for uid fd (s1, l1) (order_number_at env k) (generated_id env k)]"
      "order_items st1 = order_items st @ orderItems_of (generated_id env k) l1"
      "cart_items st1 = cart_items st"
      "call_no st1 = k + 2 + length l1"
      "map fst (calls st1) = map fst (calls st) @
           [InsertOrder (order_values_of (order_number_at env k) uid fd s1 l1),
            InsertOrderItems (orderItems_of (generated_id env k) l1)] @ map stock_request l1"
    unfolding k_def by (rule process_group_done [where g = "(s1, l1)" and uid = uid and fd = fd]) simp_all
  let ?r = "InsertOrder (order_values_of (order_number_at env (k + 2 + length l1)) uid fd s2 l2)"
  have g2: "process_group env uid fd (s2, l2) st1 = (Some OrderError, record_call ?r True st1)"
    using process_group_order_fails [of env st1 uid fd "(s2, l2)"] order2 st1(4) by simp
  have run: "handleSubmit env (Some uid) fd items st = (Failed, record_call ?r True st1)"
    by (simp add: handleSubmit_def groups g1 g2)
  have "map fst (new_calls st (record_call ?r True st1)) = drop (length (calls st)) (map fst (calls (record_call ?r True st1)))"
    by (simp add: new_calls_def drop_map)
  also have "\<dots> = [InsertOrder (order_values_of (order_number_at env k) uid fd s1 l1),
             InsertOrderItems (orderItems_of (generated_id env k) l1)]
            @ map stock_request l1 @ [?r]"
    by (simp add: record_call_def st1(5))
  finally show ?thesis
    by (simp add: st'_def run st1 record_call_def)
qed

theorem C4_witness:
  "groupedBySeller [ex_line1, ex_line2] = [(''S1'', [ex_line1]), (''S2'', [ex_line2])]
   \<and> \<not> fails (ex_env [3]) (call_no ex_store)
   \<and> \<not> fails (ex_env [3]) (call_no ex_store + 1)
   \<and> fails (ex_env [3]) (call_no ex_store + 2 + length [ex_line1])
   \<and> fst (handleSubmit (ex_env [3]) (Some ''B'') ex_form [ex_line1, ex_line2] ex_store) = Failed
   \<and> map o_seller_id (orders (snd (handleSubmit (ex_env [3]) (Some ''B'') ex_form [ex_line1, ex_line2] ex_store))) = [''S1'']
   \<and> cart_items (snd (handleSubmit (ex_env [3]) (Some ''B'') ex_form [ex_line1, ex_line2] ex_store))
       = [ex_row1, ex_row2]"
proof -
  have g: "groupedBySeller [ex_line1, ex_line2] = [(''S1'', [ex_line1]), (''S2'', [ex_line2])]"
    by (simp add: ex_defs groupedBySeller_def sellerId_of_def)
  have f: "\<not> fails (ex_env [3]) (call_no ex_store)" "\<not> fails (ex_env [3]) (call_no ex_store + 1)"
    "fails (ex_env [3]) (call_no ex_store + 2 + length [ex_line1])"
    by (simp_all add: ex_env_def ex_store_def call_no_def)
  note c = C4_partial_failure [OF g f, of "''B''" ex_form]
  have "map o_seller_id (orders ex_store @ [order_for ''B'' ex_form (''S1'', [ex_line1])
          (order_number_at (ex_env [3]) (call_no ex_store)) (generated_id (ex_env [3]) (call_no ex_store))]) = [''S1'']"
    by (simp add: ex_store_def order_for_def stored_order_def order_values_of_def)
  with c g f show ?thesis
    by (simp add: ex_store_def)
qed

subsection \<open>Responses that are not inspected, and the stock of a product\<close>

text \<open>
  Claim C3, evaluated where it fails. In the example scenario let the store answer request
  2 (the stock update of the first group) and request 6 (the delete of the cart) with an
  error. Neither response is inspected: every later request is still sent, the run
  reports success, and the cart rows are still there.
\<close>

theorem C3_success_reported_after_failed_steps:
  "fst (handleSubmit (ex_env [2, 6]) (Some ''B'') ex_form [ex_line1, ex_line2] ex_store) = Succeeded
   \<and> map snd (calls (snd (handleSubmit (ex_env [2, 6]) (Some ''B'') ex_form [ex_line1, ex_line2] ex_store)))
       = [False, False, True, False, False, False, True]
   \<and> calls (snd (handleSubmit (ex_env [2, 6]) (Some ''B'') ex_form [ex_line1, ex_line2] ex_store)) ! 2
       = (UpdateStock ''P1'' 8, True)
   \<and> calls (snd (handleSubmit (ex_env [2, 6]) (Some ''B'') ex_form [ex_line1, ex_line2] ex_store)) ! 6
       = (DeleteCart ''B'', True)
   \<and> cart_items (snd (handleSubmit (ex_env [2, 6]) (Some ''B'') ex_form [ex_line1, ex_line2] ex_store))
       = [ex_row1, ex_row2]"
  by (simp add: ex_defs run_defs)

text \<open>
  Claim C5, evaluated where it fails. The buyer \<open>B\<close> checks out one line: product P1 of
  seller S1, snapshot stock 10, quantity 2, and no request is answered with an error. The
  update sent carries 10 - 2 as the claim says, but under the policy on \<^verbatim>\<open>products\<close> it
  reaches no row for a caller who is not the seller: the stored stock of P1 is still 10.
  The same checkout sent by the seller S1 leaves 8.
\<close>

theorem C5_stock_not_decremented:
  "fst (handleSubmit (ex_env []) (Some ''B'') ex_form [ex_line1] ex_store) = Succeeded
   \<and> calls (snd (handleSubmit (ex_env []) (Some ''B'') ex_form [ex_line1] ex_store)) ! 2
       = (UpdateStock ''P1'' (10 - 2), False)
   \<and> map p_stock_quantity (products (snd (handleSubmit (ex_env []) (Some ''B'') ex_form [ex_line1] ex_store)))
       = [10, 5]
   \<and> map p_stock_quantity (products (snd (handleSubmit (ex_env []) (Some ''S1'') ex_form [ex_line1] ex_store)))
       = [8, 5]"
  by (simp add: ex_defs run_defs)

text \<open>
  In general: a checkout sent by a user who is the seller of none of the product rows
  leaves the \<^verbatim>\<open>products\<close> table as it was, whatever the lines and whatever the store
  answers.
\<close>

lemma decrement_stock_foreign:
  assumes "\<forall>p \<in> set (products st). p_seller_id p \<noteq> uid"
  shows "products (decrement_stock env uid st item) = products st"
  using assms by (auto simp: decrement_stock_def update_stock_def record_call_def intro: map_idI)

lemma decrement_all_foreign:
  assumes "\<forall>p \<in> set (products st). p_seller_id p \<noteq> uid"
  shows "products (foldl (decrement_stock env uid) st ls) = products st"
  using assms by (induction ls arbitrary: st) (simp_all add: decrement_stock_foreign)

lemma process_group_foreign:
  fixes st :: "('n::{zero,plus,minus,times}) store"
  assumes "\<forall>p \<in> set (products st). p_seller_id p \<noteq> uid"
  shows "products (snd (process_group env uid fd g st)) = products st"
  using assms
  by (simp add: process_group_def insert_order_def insert_order_items_def record_call_def Let_def
      decrement_all_foreign)

lemma process_groups_foreign:
  fixes st :: "('n::{zero,plus,minus,times}) store"
  assumes "\<forall>p \<in> set (products st). p_seller_id p \<noteq> uid"
  shows "products (snd (process_groups env uid fd gs st)) = products st"
  using assms
proof (induction gs arbitrary: st)
  case Nil
  then show ?case by simp
next
  case (Cons g gs)
  obtain r st1 where g: "process_group env uid fd g st = (r, st1)"
    by (cases "process_group env uid fd g st")
  with process_group_foreign [OF Cons.prems, of env fd g] have p: "products st1 = products st"
    by simp
  with Cons.prems have "\<forall>p \<in> set (products st1). p_seller_id p \<noteq> uid"
    by simp
  from Cons.IH [OF this] p g show ?case
    by (cases r) simp_all
qed

lemma checkout_leaves_products_of_other_sellers:
  fixes st :: "('n::{zero,plus,minus,times}) store"
  assumes "\<forall>p \<in> set (products st). p_seller_id p \<noteq> uid"
  shows "products (snd (handleSubmit env (Some uid) fd items st)) = products st"
proof -
  obtain r st1 where run: "process_groups env uid fd (groupedBySeller items) st = (r, st1)"
    by (cases "process_groups env uid fd (groupedBySeller items) st")
  with process_groups_foreign [OF assms, of env fd "groupedBySeller items"]
  have "products st1 = products st" by simp
  with run show ?thesis
    by (cases r) (simp_all add: handleSubmit_def delete_cart_frame)
qed

subsection \<open>The cart\<close>

lemma loadCart_calls:
  "\<exists>cs. calls (snd (loadCart env user w)) = calls (snd w) @ cs"
  by (cases user) (auto simp: loadCart_def select_cart_def record_call_def split: prod.splits option.splits)

text \<open>
  Claim C9. For a requested quantity below 1, \<^verbatim>\<open>updateQuantity\<close> returns the component
  state and the store as they were, the list of requests included: no request is sent.
  Whenever a request is sent, the requested quantity is at least 1; and when it is at
  least 1, the first request sent is the update of the row's quantity to it. The numbers
  are those of a linear order (the quantities of the cart are integers).
\<close>

theorem C9_quantity_below_one_is_ignored:
  fixes newQuantity :: "'n::{linorder,one}" and w :: "'n cart_modal \<times> 'n store"
  shows "(newQuantity < 1 \<longrightarrow> updateQuantity env user itemId newQuantity w = w)
       \<and> (calls (snd (updateQuantity env user itemId newQuantity w)) \<noteq> calls (snd w)
            \<longrightarrow> 1 \<le> newQuantity)
       \<and> (1 \<le> newQuantity \<longrightarrow>
            fst (hd (new_calls (snd w) (snd (updateQuantity env user itemId newQuantity w))))
              = UpdateCartQuantity itemId newQuantity)"
proof (intro conjI impI)
  assume "newQuantity < 1"
  then show "updateQuantity env user itemId newQuantity w = w"
    by (simp add: updateQuantity_def)
next
  assume "calls (snd (updateQuantity env user itemId newQuantity w)) \<noteq> calls (snd w)"
  then have "\<not> newQuantity < 1"
    by (auto simp: updateQuantity_def)
  then show "1 \<le> newQuantity" by simp
next
  assume "1 \<le> newQuantity"
  then have ge: "\<not> newQuantity < 1" by simp
  let ?r = "UpdateCartQuantity itemId newQuantity"
  obtain e st1 where u: "update_cart_quantity env user itemId newQuantity (snd w) = (e, st1)"
    by (cases "update_cart_quantity env user itemId newQuantity (snd w)")
  then have c1: "calls st1 = calls (snd w) @ [(?r, e)]"
    by (auto simp: update_cart_quantity_def record_call_def split: if_splits)
  from loadCart_calls [of env user "(fst w, st1)"] obtain cs where
    "calls (snd (loadCart env user (fst w, st1))) = calls st1 @ cs"
    by auto
  with c1 u ge have "\<exists>cs. calls (snd (updateQuantity env user itemId newQuantity w)) = calls (snd w) @ (?r, e) # cs"
    by (cases e) (simp_all add: updateQuantity_def)
  then show "fst (hd (new_calls (snd w) (snd (updateQuantity env user itemId newQuantity w)))) = ?r"
    by (auto simp: new_calls_def)
qed

theorem C9_witness:
  "(0::int) < 1
   \<and> updateQuantity (ex_env []) (Some ''B'') ''c1'' 0 (ex_modal, ex_store) = (ex_modal, ex_store)
   \<and> (1::int) \<le> 3
   \<and> fst (hd (new_calls ex_store
         (snd (updateQuantity (ex_env []) (Some ''B'') ''c1'' 3 (ex_modal, ex_store)))))
       = UpdateCartQuantity ''c1'' 3"
proof -
  note a = C9_quantity_below_one_is_ignored [of 0 "ex_env []" "Some ''B''" "''c1''" "(ex_modal, ex_store)"]
  note b = C9_quantity_below_one_is_ignored [of 3 "ex_env []" "Some ''B''" "''c1''" "(ex_modal, ex_store)"]
  have "(0::int) < 1" and "(1::int) \<le> 3" by simp_all
  with a b show ?thesis by simp
qed

lemma distinct_filter_key:
  assumes "distinct (map f xs)"
  shows "filter (\<lambda>x. f x = k) xs = [] \<or> (\<exists>x. filter (\<lambda>x. f x = k) xs = [x])"
  using assms
proof (induction xs)
  case Nil
  then show ?case by simp
next
  case (Cons a xs)
  show ?case
  proof (cases "f a = k")
    case True
    from Cons.prems have "f a \<notin> f ` set xs" by simp
    with True have "\<forall>x \<in> set xs. f x \<noteq> k" by blast
    then have "filter (\<lambda>x. f x = k) xs = []" by (simp add: filter_empty_conv)
    with True show ?thesis by simp
  next
    case False
    with Cons show ?thesis by simp
  qed
qed

lemma select_cart_item_frame:
  "cart_items (snd (select_cart_item env caller buyer pid st)) = cart_items st"
  "call_no (snd (select_cart_item env caller buyer pid st)) = call_no st + 1"
  by (auto simp: select_cart_item_def record_call_def call_no_def split: list.splits)

lemma update_cart_quantity_keys:
  "map cart_key (cart_items (snd (update_cart_quantity env caller i q st))) = map cart_key (cart_items st)"
  by (auto simp: update_cart_quantity_def record_call_def cart_key_def)

lemma insert_cart_item_unique:
  assumes "cart_unique st"
  shows "cart_unique (snd (insert_cart_item env buyer pid q st))"
  using assms by (force simp: insert_cart_item_def record_call_def cart_unique_def cart_key_def)

lemma loadCartCount_frame:
  "cart_items (snd (loadCartCount env user w)) = cart_items (snd w)"
  by (cases user) (simp_all add: loadCartCount_def record_call_def)

lemma handleAddToCart_unique:
  fixes w :: "('n::{zero,one,plus}) app \<times> 'n store"
  assumes "cart_unique (snd w)"
  shows "cart_unique (snd (handleAddToCart env user role pid w))"
proof (cases "user = None \<or> role \<noteq> Some ''buyer''")
  case True
  with assms show ?thesis
    by (auto simp: handleAddToCart_def split: option.splits)
next
  case False
  then obtain uid where u: "user = Some uid" and r: "role = Some ''buyer''"
    by auto
  obtain ex st1 where sel: "select_cart_item env user uid pid (snd w) = (ex, st1)"
    by (cases "select_cart_item env user uid pid (snd w)")
  with select_cart_item_frame(1) [of env user uid pid "snd w"]
  have c1: "cart_items st1 = cart_items (snd w)" by simp
  with assms have u1: "cart_unique st1" by (simp add: cart_unique_def)
  show ?thesis
  proof (cases ex)
    case None
    obtain e st2 where ins: "insert_cart_item env uid pid 1 st1 = (e, st2)"
      by (cases "insert_cart_item env uid pid 1 st1")
    with insert_cart_item_unique [OF u1, of env uid pid 1] have "cart_unique st2" by simp
    with u r sel None ins show ?thesis
      by (cases e) (simp_all add: handleAddToCart_def cart_unique_def loadCartCount_frame)
  next
    case (Some c)
    obtain e st2 where upd: "update_cart_quantity env user (c_id c) (c_quantity c + 1) st1 = (e, st2)"
      by (cases "update_cart_quantity env user (c_id c) (c_quantity c + 1) st1")
    with update_cart_quantity_keys [of env user "c_id c" "c_quantity c + 1" st1] u1
    have "cart_unique st2" by (simp add: cart_unique_def)
    with u r sel Some upd show ?thesis
      by (cases e) (simp_all add: handleAddToCart_def cart_unique_def loadCartCount_frame)
  qed
qed


lemma select_cart_item_found:
  assumes uniq: "cart_unique st" and nf: "\<not> fails env (call_no st)"
      and c: "c \<in> set (cart_items st)" "c_buyer_id c = uid" "c_product_id c = pid"
  shows "select_cart_item env (Some uid) uid pid st =
           (Some c, record_call (SelectCartItem uid pid) False st)"
proof -
  let ?F = "\<lambda>r. c_buyer_id r = uid \<and> c_product_id r = pid \<and> Some (c_buyer_id r) = Some uid"
  have eq: "filter ?F (cart_items st) = filter (\<lambda>r. cart_key r = (uid, pid)) (cart_items st)"
    by (rule filter_cong) (auto simp: cart_key_def)
  define fs where "fs = filter ?F (cart_items st)"
  from c have m: "c \<in> set fs" by (simp add: fs_def)
  from distinct_filter_key [of cart_key "cart_items st" "(uid, pid)"] uniq
  have d: "fs = [] \<or> (\<exists>x. fs = [x])"
    unfolding fs_def eq by (simp add: cart_unique_def)
  from m d have "fs = [c]" by auto
  then have "filter ?F (cart_items st) = [c]" by (simp only: fs_def)
  with nf show ?thesis by (simp add: select_cart_item_def)
qed

lemma select_cart_item_missing:
  assumes nf: "\<not> fails env (call_no st)"
      and none: "\<not> (\<exists>c \<in> set (cart_items st). c_buyer_id c = uid \<and> c_product_id c = pid)"
  shows "select_cart_item env (Some uid) uid pid st =
           (None, record_call (SelectCartItem uid pid) False st)"
proof -
  from none have "filter (\<lambda>r. c_buyer_id r = uid \<and> c_product_id r = pid \<and> Some (c_buyer_id r) = Some uid)
      (cart_items st) = []"
    by (auto simp: filter_empty_conv)
  with nf show ?thesis by (simp add: select_cart_item_def)
qed

lemma increment_in_place:
  assumes uniq: "cart_unique st" and ids: "distinct (map c_id (cart_items st))"
      and c: "c \<in> set (cart_items st)" "c_buyer_id c = uid" "c_product_id c = pid"
  shows "map (\<lambda>r. if c_id r = c_id c \<and> Some (c_buyer_id r) = Some uid
                   then r\<lparr>c_quantity := c_quantity c + 1\<rparr> else r) (cart_items st) =
         map (\<lambda>r. if c_buyer_id r = uid \<and> c_product_id r = pid
                   then r\<lparr>c_quantity := c_quantity r + 1\<rparr> else r) (cart_items st)"
proof (rule map_cong [OF refl])
  fix r assume r: "r \<in> set (cart_items st)"
  from ids have i: "inj_on c_id (set (cart_items st))" by (simp add: distinct_map)
  from uniq have k: "inj_on cart_key (set (cart_items st))" by (simp add: cart_unique_def distinct_map)
  have a: "c_id r = c_id c \<longleftrightarrow> r = c"
    using inj_onD [OF i _ r c(1)] by auto
  have b: "c_buyer_id r = uid \<and> c_product_id r = pid \<longleftrightarrow> r = c"
    using inj_onD [OF k _ r c(1)] c(2,3) by (auto simp: cart_key_def)
  show "(if c_id r = c_id c \<and> Some (c_buyer_id r) = Some uid
         then r\<lparr>c_quantity := c_quantity c + 1\<rparr> else r) =
        (if c_buyer_id r = uid \<and> c_product_id r = pid
         then r\<lparr>c_quantity := c_quantity r + 1\<rparr> else r)"
    using a b c(2) by auto
qed

text \<open>
  Claim C10. Adding a product to the cart keeps at most one cart row per buyer and product,
  whatever the store answers. Where the buyer is signed in with the role \<^verbatim>\<open>buyer\<close> and the
  two requests are answered without error: if a row for the buyer and the product exists
  (the row ids being distinct, as a primary key), that row's quantity is incremented by 1
  in place and no other row changes; if none exists, one row with quantity 1 is appended.
\<close>

theorem C10_one_row_per_buyer_and_product:
  fixes w :: "('n::{zero,one,plus}) app \<times> 'n store" and env user role pid uid
  defines "st \<equiv> snd w"
  defines "st' \<equiv> snd (handleAddToCart env user role pid w)"
  assumes uniq: "cart_unique st"
  shows "cart_unique st'
       \<and> (user = Some uid \<and> role = Some ''buyer''
            \<and> \<not> fails env (call_no st) \<and> \<not> fails env (call_no st + 1)
            \<and> distinct (map c_id (cart_items st))
            \<and> (\<exists>c \<in> set (cart_items st). c_buyer_id c = uid \<and> c_product_id c = pid)
          \<longrightarrow> cart_items st' =
                map (\<lambda>c. if c_buyer_id c = uid \<and> c_product_id c = pid
                          then c\<lparr>c_quantity := c_quantity c + 1\<rparr> else c) (cart_items st))
       \<and> (user = Some uid \<and> role = Some ''buyer''
            \<and> \<not> fails env (call_no st) \<and> \<not> fails env (call_no st + 1)
            \<and> \<not> (\<exists>c \<in> set (cart_items st). c_buyer_id c = uid \<and> c_product_id c = pid)
          \<longrightarrow> cart_items st' = cart_items st @
                [\<lparr>c_id = generated_id env (call_no st + 1), c_buyer_id = uid,
                  c_product_id = pid, c_quantity = 1\<rparr>])"
proof (intro conjI impI)
  show "cart_unique st'"
    using uniq unfolding st_def st'_def by (rule handleAddToCart_unique)
next
  assume h: "user = Some uid \<and> role = Some ''buyer''
      \<and> \<not> fails env (call_no st) \<and> \<not> fails env (call_no st + 1)
      \<and> distinct (map c_id (cart_items st))
      \<and> (\<exists>c \<in> set (cart_items st). c_buyer_id c = uid \<and> c_product_id c = pid)"
  then obtain c where c: "c \<in> set (cart_items st)" "c_buyer_id c = uid" "c_product_id c = pid"
    by blast
  let ?st1 = "record_call (SelectCartItem uid pid) False st"
  have sel: "select_cart_item env (Some uid) uid pid st = (Some c, ?st1)"
    using uniq h c by (intro select_cart_item_found) simp_all
  have k1: "call_no ?st1 = call_no st + 1" and c1: "cart_items ?st1 = cart_items st"
    by (simp_all add: call_no_def record_call_def)
  have upd: "update_cart_quantity env (Some uid) (c_id c) (c_quantity c + 1) ?st1 =
      (False, record_call (UpdateCartQuantity (c_id c) (c_quantity c + 1)) False
         (?st1\<lparr>cart_items := map (\<lambda>r. if c_id r = c_id c \<and> Some (c_buyer_id r) = Some uid
                   then r\<lparr>c_quantity := c_quantity c + 1\<rparr> else r) (cart_items st)\<rparr>))"
    using h by (simp add: update_cart_quantity_def k1 c1)
  have "cart_items st' = map (\<lambda>r. if c_id r = c_id c \<and> Some (c_buyer_id r) = Some uid
                   then r\<lparr>c_quantity := c_quantity c + 1\<rparr> else r) (cart_items st)"
    using h sel upd unfolding st'_def
    by (simp add: handleAddToCart_def st_def [symmetric] loadCartCount_frame record_call_def)
  also note increment_in_place [OF uniq _ c]
  finally show "cart_items st' =
      map (\<lambda>c. if c_buyer_id c = uid \<and> c_product_id c = pid
                then c\<lparr>c_quantity := c_quantity c + 1\<rparr> else c) (cart_items st)"
    using h by simp
next
  assume h: "user = Some uid \<and> role = Some ''buyer''
      \<and> \<not> fails env (call_no st) \<and> \<not> fails env (call_no st + 1)
      \<and> \<not> (\<exists>c \<in> set (cart_items st). c_buyer_id c = uid \<and> c_product_id c = pid)"
  let ?st1 = "record_call (SelectCartItem uid pid) False st"
  have sel: "select_cart_item env (Some uid) uid pid st = (None, ?st1)"
    using h by (intro select_cart_item_missing) simp_all
  have k1: "call_no ?st1 = call_no st + 1" and c1: "cart_items ?st1 = cart_items st"
    by (simp_all add: call_no_def record_call_def)
  have ins: "insert_cart_item env uid pid 1 ?st1 =
      (False, record_call (InsertCartItem uid pid 1) False
         (?st1\<lparr>cart_items := cart_items st @
             [\<lparr>c_id = generated_id env (call_no st + 1), c_buyer_id = uid,
               c_product_id = pid, c_quantity = 1\<rparr>]\<rparr>))"
    using h by (simp add: insert_cart_item_def k1 c1)
  show "cart_items st' = cart_items st @
      [\<lparr>c_id = generated_id env (call_no st + 1), c_buyer_id = uid,
        c_product_id = pid, c_quantity = 1\<rparr>]"
    using h sel ins unfolding st'_def
    by (simp add: handleAddToCart_def st_def [symmetric] loadCartCount_frame record_call_def)
qed

theorem C10_witness:
  "cart_unique ex_store
   \<and> \<not> fails (ex_env []) (call_no ex_store) \<and> \<not> fails (ex_env []) (call_no ex_store + 1)
   \<and> distinct (map c_id (cart_items ex_store))
   \<and> cart_unique (snd (handleAddToCart (ex_env []) (Some ''B'') (Some ''buyer'') ''P1'' (ex_app, ex_store)))
   \<and> map c_quantity (cart_items
         (snd (handleAddToCart (ex_env []) (Some ''B'') (Some ''buyer'') ''P1'' (ex_app, ex_store))))
       = [3, 1]
   \<and> map c_quantity (cart_items
         (snd (handleAddToCart (ex_env []) (Some ''B'') (Some ''buyer'') ''P3'' (ex_app, ex_store))))
       = [2, 1, 1]"
proof -
  have u: "cart_unique (snd (ex_app, ex_store))"
    by (simp add: cart_unique_def cart_key_def ex_defs)
  have f: "\<not> fails (ex_env []) (call_no ex_store)" "\<not> fails (ex_env []) (call_no ex_store + 1)"
    by (simp_all add: ex_env_def)
  have d: "distinct (map c_id (cart_items ex_store))"
    by (simp add: ex_defs)
  have e1: "\<exists>c \<in> set (cart_items ex_store). c_buyer_id c = ''B'' \<and> c_product_id c = ''P1''"
    by (simp add: ex_defs)
  have e3: "\<not> (\<exists>c \<in> set (cart_items ex_store). c_buyer_id c = ''B'' \<and> c_product_id c = ''P3'')"
    by (simp add: ex_defs)
  note t1 = C10_one_row_per_buyer_and_product [OF u, of "ex_env []" "Some ''B''" "Some ''buyer''" "''P1''" "''B''"]
  note t3 = C10_one_row_per_buyer_and_product [OF u, of "ex_env []" "Some ''B''" "Some ''buyer''" "''P3''" "''B''"]
  from t1 f d e1 have q1: "cart_items
         (snd (handleAddToCart (ex_env []) (Some ''B'') (Some ''buyer'') ''P1'' (ex_app, ex_store)))
       = map (\<lambda>c. if c_buyer_id c = ''B'' \<and> c_product_id c = ''P1''
                          then c\<lparr>c_quantity := c_quantity c + 1\<rparr> else c) (cart_items ex_store)"
    by simp
  from t3 f e3 have q3: "cart_items
         (snd (handleAddToCart (ex_env []) (Some ''B'') (Some ''buyer'') ''P3'' (ex_app, ex_store)))
       = cart_items ex_store @
                [\<lparr>c_id = generated_id (ex_env []) (call_no ex_store + 1), c_buyer_id = ''B'',
                  c_product_id = ''P3'', c_quantity = 1\<rparr>]"
    by simp
  from t1 have u1: "cart_unique (snd (handleAddToCart (ex_env []) (Some ''B'') (Some ''buyer'') ''P1'' (ex_app, ex_store)))"
    by (rule conjunct1)
  have "map c_quantity (map (\<lambda>c. if c_buyer_id c = ''B'' \<and> c_product_id c = ''P1''
                          then c\<lparr>c_quantity := c_quantity c + 1\<rparr> else c) (cart_items ex_store)) = [3, 1]"
    by (simp add: ex_defs)
  moreover have "map c_quantity (cart_items ex_store @
                [\<lparr>c_id = generated_id (ex_env []) (call_no ex_store + 1), c_buyer_id = ''B'',
                  c_product_id = ''P3'', c_quantity = 1\<rparr>]) = [2, 1, 1]"
    by (simp add: ex_defs)
  ultimately show ?thesis
    using u f d u1 by (simp only: q1 q3 snd_conv) simp
qed

end
